theory Spec2Isabelle
  imports Complex_Main "HOL-Library.Log_Nat"
begin

section \<open>JavaScript values used by the game board\<close>

text \<open>
  A JavaScript array that the code writes by index is a list of optional cells:
  \<open>None\<close> is a hole (it reads as \<open>undefined\<close>). Arrays that only come out of a
  JSON reply are plain lists. Reading past the end of either gives \<open>undefined\<close>.
\<close>

definition js_index :: "'a list \<Rightarrow> nat \<Rightarrow> 'a option" where
  "js_index xs i = (if i < length xs then Some (xs ! i) else None)"

text \<open>\<open>xs[i] = v\<close>: in range it replaces the cell, past the end the array grows and the
  cells in between are holes.\<close>

definition js_assign :: "'a option list \<Rightarrow> nat \<Rightarrow> 'a \<Rightarrow> 'a option list" where
  "js_assign xs i v =
     (if i < length xs then xs[i := Some v]
      else xs @ replicate (i - length xs) None @ [Some v])"

text \<open>\<open>xs.findIndex((letter) => letter === "")\<close>: the first index holding the empty
  string, \<open>-1\<close> when there is none.\<close>

fun findIndexFrom :: "int \<Rightarrow> string option list \<Rightarrow> int" where
  "findIndexFrom i [] = -1"
| "findIndexFrom i (c # cs) = (if c = Some [] then i else findIndexFrom (i + 1) cs)"

definition findIndexEmpty :: "string option list \<Rightarrow> int" where
  "findIndexEmpty cells = findIndexFrom 0 cells"

text \<open>\<open>cells.join("")\<close>: holes and \<open>undefined\<close> contribute nothing.\<close>

definition joinCells :: "string option list \<Rightarrow> string" where
  "joinCells cells = concat (map (\<lambda>c. case c of None \<Rightarrow> [] | Some t \<Rightarrow> t) cells)"

text \<open>\<open>word.split("")\<close>: one single-character string per character.\<close>

definition splitChars :: "string \<Rightarrow> string list" where
  "splitChars word = map (\<lambda>c. [c]) word"

text \<open>Truthiness of an optional string (\<open>undefined\<close>, \<open>null\<close> and \<open>""\<close> are falsy).\<close>

definition falsy :: "string option \<Rightarrow> bool" where
  "falsy v = (v = None \<or> v = Some [])"

text \<open>ASCII letters, the only characters the key filter \<open>/^[a-zA-Z]$/\<close> lets through, and
  \<open>toUpperCase\<close> on them.\<close>

definition isLower :: "char \<Rightarrow> bool" where
  "isLower c = (97 \<le> (of_char c :: nat) \<and> (of_char c :: nat) \<le> 122)"

definition isUpper :: "char \<Rightarrow> bool" where
  "isUpper c = (65 \<le> (of_char c :: nat) \<and> (of_char c :: nat) \<le> 90)"

definition toUpperChar :: "char \<Rightarrow> char" where
  "toUpperChar c = (if isLower c then char_of ((of_char c :: nat) - 32) else c)"

definition toUpperCase :: "string \<Rightarrow> string" where
  "toUpperCase key = map toUpperChar key"

definition isLetterKey :: "string \<Rightarrow> bool" where
  "isLetterKey key = (case key of [c] \<Rightarrow> isLower c \<or> isUpper c | _ \<Rightarrow> False)"

section \<open>Keyboard status: the upgrade-only merge\<close>

text \<open>
  \<open>keyboardStatus\<close> is an object from letters to status strings. A key that was never
  written reads as \<open>undefined\<close> (\<open>None\<close>). Letters are single-character strings, so
  no inherited property of the object is ever looked up.
\<close>

type_synonym keyboard = "string \<Rightarrow> string option"

text \<open>The body of the inner \<open>forEach\<close> of \<open>loadGameState\<close> and \<open>handleSubmit\<close>.\<close>

definition upgradeKey :: "keyboard \<Rightarrow> string \<Rightarrow> string option \<Rightarrow> keyboard" where
  "upgradeKey kb letter status =
     (if falsy (kb letter) \<or>
         (kb letter = Some ''absent'' \<and> status \<noteq> Some ''absent'') \<or>
         (kb letter = Some ''present'' \<and> status = Some ''correct'')
      then kb(letter := status) else kb)"

text \<open>\<open>letters.forEach((letter, letterIndex) => ...)\<close> from index \<open>i\<close> on, reading
  \<open>evaluation[letterIndex]\<close>.\<close>

fun mergeFrom :: "nat \<Rightarrow> string list \<Rightarrow> string list \<Rightarrow> keyboard \<Rightarrow> keyboard" where
  "mergeFrom i evaluation [] kb = kb"
| "mergeFrom i evaluation (letter # rest) kb =
     mergeFrom (Suc i) evaluation rest (upgradeKey kb letter (js_index evaluation i))"

datatype js_error = TypeError | FetchFailed | Error string

text \<open>\<open>data.attempts.forEach((word, attemptIndex) => ...)\<close> from index \<open>i\<close> on. When
  \<open>data.evaluations[attemptIndex]\<close> is \<open>undefined\<close>, reading its first letter's status
  throws a \<open>TypeError\<close>; an empty word reads nothing.\<close>

fun mergeAttempts ::
  "nat \<Rightarrow> string list list \<Rightarrow> string list \<Rightarrow> keyboard \<Rightarrow> js_error + keyboard" where
  "mergeAttempts i evaluations [] kb = Inr kb"
| "mergeAttempts i evaluations (word # rest) kb =
     (case js_index evaluations i of
        None \<Rightarrow> (if word = [] then mergeAttempts (Suc i) evaluations rest kb
                 else Inl TypeError)
      | Some evaluation \<Rightarrow>
          mergeAttempts (Suc i) evaluations rest
            (mergeFrom 0 evaluation (splitChars word) kb))"

section \<open>The API layer (services/api.ts, in its version with the Firestore cache)\<close>

text \<open>What one \<open>fetch\<close> gives back: the promise rejects (no connection, or the body fails
  to parse), the reply has \<open>response.ok\<close> false, or it carries JSON data.\<close>

datatype 'a fetched = Rejected | NotOk | Json 'a

record stats =
  played :: int
  won :: int
  current_streak :: int
  max_streak :: int
  guess_distribution :: "(string \<times> int) list"

record StatsResponse =
  success :: bool
  stats :: stats
  stats_error :: "string option"

text \<open>The body shared by \<open>startNewGame\<close>, \<open>getGameState\<close> and \<open>submitGuess\<close> of the
  API layer: any failure is logged and thrown again to the caller.\<close>

definition rethrowing :: "'a fetched \<Rightarrow> js_error + 'a" where
  "rethrowing reply =
     (case reply of
        Rejected \<Rightarrow> Inl FetchFailed
      | NotOk \<Rightarrow> Inl (Error ''Network response was not ok'')
      | Json data \<Rightarrow> Inr data)"

definition api_startNewGame :: "'a fetched \<Rightarrow> js_error + 'a" where
  "api_startNewGame reply = rethrowing reply"

definition api_getGameState :: "'a fetched \<Rightarrow> js_error + 'a" where
  "api_getGameState reply = rethrowing reply"

definition api_submitGuess :: "'a fetched \<Rightarrow> js_error + 'a" where
  "api_submitGuess reply = rethrowing reply"

text \<open>What \<open>getDoc\<close> on the Firestore statistics document gives: it throws, the document
  does not exist, or it holds statistics.\<close>

datatype firestore_read = ReadFailed | NoDocument | Document stats

definition zeroStats :: stats where
  "zeroStats = \<lparr>played = 0, won = 0, current_streak = 0, max_streak = 0,
     guess_distribution =
       [(''1'', 0), (''2'', 0), (''3'', 0), (''4'', 0), (''5'', 0), (''6'', 0)]\<rparr>"

text \<open>\<open>getStats\<close>: Firestore first; when that throws or has no document, the HTTP API
  (a failure to save its answer back to Firestore is caught and only logged, and does not
  change what is returned); when that fails too, the outer \<open>catch\<close> logs the error and
  returns zeroed statistics with \<open>success: true\<close>.\<close>

definition getStats :: "firestore_read \<Rightarrow> StatsResponse fetched \<Rightarrow> js_error + StatsResponse" where
  "getStats fs reply =
     (case fs of
        Document st \<Rightarrow> Inr \<lparr>success = True, stats = st, stats_error = None\<rparr>
      | _ \<Rightarrow>
        (case reply of
           Json data \<Rightarrow> Inr data
         | _ \<Rightarrow> Inr \<lparr>success = True, stats = zeroStats, stats_error = None\<rparr>))"

text \<open>\<open>getStats\<close> of the version of the API layer without the Firestore cache
  (src/frontend/src/app/services/api.ts): like the three operations above it logs a
  failure and throws it again.\<close>

definition services_getStats :: "StatsResponse fetched \<Rightarrow> js_error + StatsResponse" where
  "services_getStats reply = rethrowing reply"

section \<open>The game board component (GameBoard)\<close>

datatype game_status = Playing | Won | Lost

text \<open>The JSON of \<open>GET /api/game/<id>\<close> and of \<open>POST /api/guess\<close>, with the fields the
  component reads.\<close>

record gameData =
  d_error :: "string option"
  d_attempts :: "string list"
  d_evaluations :: "string list list"
  d_game_status :: game_status
  d_word :: "string option"

record guessData =
  g_error :: "string option"
  g_game_status :: game_status

text \<open>The replies the outside world gives to the calls of one handler run.\<close>

record server =
  newGameReply :: "string fetched"
  gameReply :: "gameData fetched"
  guessReply :: "guessData fetched"
  statsDoc :: firestore_read
  statsReply :: "StatsResponse fetched"

text \<open>The calls a handler makes, in order.\<close>

datatype call = PostNewGame nat nat | GetGame string | PostGuess string string | GetStats

text \<open>The component's state (its \<open>useState\<close> cells), and the log of the calls made so
  far.\<close>

record board =
  gameId :: "string option"
  attempts :: "string list list"
  evaluations :: "string list list"
  currentAttempt :: "string option list"
  gameStatus :: game_status
  keyboardStatus :: keyboard
  isLoading :: bool
  error :: "string option"
  solution :: "string option"
  statsOpen :: bool
  boardStats :: "stats option"
  statsLoading :: bool
  calls :: "call list"

definition emptyRow :: "nat \<Rightarrow> string option list" where
  "emptyRow wordLength = replicate wordLength (Some [])"

definition startNewGame :: "nat \<Rightarrow> nat \<Rightarrow> server \<Rightarrow> board \<Rightarrow> board" where
  "startNewGame maxAttempts wordLength srv s =
     (let s1 = s\<lparr>isLoading := True, error := None,
                 calls := calls s @ [PostNewGame wordLength maxAttempts]\<rparr>;
          failed = s1\<lparr>error := Some ''Failed to start new game. Please try again.'',
                      isLoading := False\<rparr>
      in case newGameReply srv of
           Rejected \<Rightarrow> failed
         | NotOk \<Rightarrow> failed
         | Json game_id \<Rightarrow>
             s1\<lparr>gameId := Some game_id, attempts := [], evaluations := [],
                currentAttempt := emptyRow wordLength, gameStatus := Playing,
                keyboardStatus := (\<lambda>_. None), solution := None, isLoading := False\<rparr>)"

definition loadGameState :: "server \<Rightarrow> string \<Rightarrow> board \<Rightarrow> board" where
  "loadGameState srv ident s =
     (let s1 = s\<lparr>isLoading := True, error := None, calls := calls s @ [GetGame ident]\<rparr>;
          message = Some ''Failed to load game. Please try again.''
      in case gameReply srv of
           Rejected \<Rightarrow> s1\<lparr>error := message, isLoading := False\<rparr>
         | NotOk \<Rightarrow> s1\<lparr>error := message, isLoading := False\<rparr>
         | Json data \<Rightarrow>
             if \<not> falsy (d_error data) then s1\<lparr>error := message, isLoading := False\<rparr>
             else
               let s2 = s1\<lparr>attempts := map splitChars (d_attempts data),
                           evaluations := d_evaluations data,
                           gameStatus := d_game_status data,
                           solution := d_word data\<rparr>
               in case mergeAttempts 0 (d_evaluations data) (d_attempts data)
                         (keyboardStatus s) of
                    Inl e \<Rightarrow> s2\<lparr>error := message, isLoading := False\<rparr>
                  | Inr kb \<Rightarrow> s2\<lparr>keyboardStatus := kb, isLoading := False\<rparr>)"

definition fetchStats :: "server \<Rightarrow> board \<Rightarrow> board" where
  "fetchStats srv s =
     (let s1 = s\<lparr>statsLoading := True, calls := calls s @ [GetStats]\<rparr>
      in case getStats (statsDoc srv) (statsReply srv) of
           Inl e \<Rightarrow> s1\<lparr>statsLoading := False\<rparr>
         | Inr response \<Rightarrow>
             if success response
             then s1\<lparr>boardStats := Some (stats response), statsLoading := False\<rparr>
             else s1\<lparr>statsLoading := False\<rparr>)"

definition submitGuess :: "nat \<Rightarrow> server \<Rightarrow> string \<Rightarrow> board \<Rightarrow> board" where
  "submitGuess wordLength srv word s =
     (case gameId s of
        None \<Rightarrow> s
      | Some ident \<Rightarrow>
        if ident = [] \<or> length word \<noteq> wordLength \<or> gameStatus s \<noteq> Playing then s
        else
          let s1 = s\<lparr>isLoading := True, error := None,
                      calls := calls s @ [PostGuess ident word]\<rparr>;
              message = Some ''Failed to submit guess. Please try again.''
          in case guessReply srv of
               Rejected \<Rightarrow> s1\<lparr>error := message, isLoading := False\<rparr>
             | NotOk \<Rightarrow> s1\<lparr>error := message, isLoading := False\<rparr>
             | Json data \<Rightarrow>
                 if \<not> falsy (g_error data)
                 then s1\<lparr>error := g_error data, isLoading := False\<rparr>
                 else
                   let s2 = loadGameState srv ident s1;
                       s3 = s2\<lparr>currentAttempt := emptyRow wordLength\<rparr>;
                       s4 = (if g_game_status data = Won \<or> g_game_status data = Lost
                             then fetchStats srv s3 else s3)
                   in s4\<lparr>isLoading := False\<rparr>)"

definition handleKeyPress :: "nat \<Rightarrow> server \<Rightarrow> string \<Rightarrow> board \<Rightarrow> board" where
  "handleKeyPress wordLength srv key s =
     (if gameStatus s \<noteq> Playing \<or> isLoading s then s
      else if key = ''Enter'' then
        (let word = joinCells (currentAttempt s)
         in if length word = wordLength then submitGuess wordLength srv word s else s)
      else if key = ''Backspace'' then
        (let index = findIndexEmpty (currentAttempt s);
             deleteIndex = (if index = -1 then int wordLength - 1 else index - 1)
         in if deleteIndex \<ge> 0
            then s\<lparr>currentAttempt := js_assign (currentAttempt s) (nat deleteIndex) []\<rparr>
            else s)
      else if isLetterKey key then
        (let index = findIndexEmpty (currentAttempt s)
         in if index \<noteq> -1
            then s\<lparr>currentAttempt :=
                    js_assign (currentAttempt s) (nat index) (toUpperCase key)\<rparr>
            else s)
      else s)"

subsection \<open>Numbers and the win percentage\<close>

text \<open>
  JavaScript numbers are IEEE 754 double-precision values. A finite double is a rational
  number, and an arithmetic operation returns the double nearest to the exact result,
  ties going to the even significand. \<open>expo x\<close> is the binary exponent of a positive
  \<open>x\<close> (\<open>2 ^ expo x \<le> x < 2 ^ (expo x + 1)\<close>), and \<open>toDouble x\<close> rounds \<open>x\<close> to 53
  significant bits. This is the double nearest to \<open>x\<close> wherever \<open>x\<close> is in the range
  of normal doubles; overflow, subnormal numbers, infinities and NaN are not modelled
  (the counts of games played and won stay far from them).
\<close>

definition expo :: "rat \<Rightarrow> int" where
  "expo x =
     (case quotient_of x of
        (a, b) \<Rightarrow> let e0 = bitlen a - bitlen b in if 2 powi e0 \<le> x then e0 else e0 - 1)"

definition roundEven :: "rat \<Rightarrow> int" where
  "roundEven y =
     (let n = \<lfloor>y\<rfloor>; f = y - of_int n
      in if f < 1 / 2 then n else if 1 / 2 < f then n + 1 else if even n then n else n + 1)"

definition toDouble :: "rat \<Rightarrow> rat" where
  "toDouble x =
     (if x = 0 then 0
      else let q = 2 powi (expo \<bar>x\<bar> - 52) in of_int (roundEven (x / q)) * q)"

text \<open>\<open>x / y\<close> (for \<open>y\<close> other than zero) and \<open>x * y\<close> on numbers, and \<open>Math.round\<close>,
  which rounds to the nearest integer with ties going up.\<close>

definition jsDivide :: "rat \<Rightarrow> rat \<Rightarrow> rat" where
  "jsDivide x y = toDouble (x / y)"

definition jsTimes :: "rat \<Rightarrow> rat \<Rightarrow> rat" where
  "jsTimes x y = toDouble (x * y)"

definition mathRound :: "rat \<Rightarrow> int" where
  "mathRound y = \<lfloor>y + 1 / 2\<rfloor>"

text \<open>\<open>stats.played > 0 ? Math.round((stats.won / stats.played) * 100) : 0\<close>, the win
  percentage shown by the statistics dialog of the board and by the GameStats component,
  as a function of the two counts and of the statistics record. The counts are integers;
  below \<open>2 ^ 53\<close> in size they are doubles as they stand.\<close>

definition percentOf :: "int \<Rightarrow> int \<Rightarrow> int" where
  "percentOf w p = (if p > 0 then mathRound (jsTimes (jsDivide (of_int w) (of_int p)) 100) else 0)"

definition winPercentage :: "stats \<Rightarrow> int" where
  "winPercentage st = percentOf (won st) (played st)"

subsection \<open>What the board shows\<close>

text \<open>The JSX the component returns, as the data it displays: the loading overlay, the
  error text, the recorded rows with the colour class of every letter, the current row
  and the dashed empty rows while playing, the status message, the virtual keyboard with
  its key colours while playing (the Play Again button otherwise), and the statistics
  dialog (whose figures are computed from the statistics it holds).\<close>

definition getStatusColor :: "string \<Rightarrow> string" where
  "getStatusColor st =
     (if st = ''correct'' then ''bg-green-500 text-white''
      else if st = ''present'' then ''bg-yellow-500 text-white''
      else if st = ''absent'' then ''bg-gray-500 text-white''
      else ''bg-white border-2 border-gray-300'')"

definition statusAt :: "string list list \<Rightarrow> nat \<Rightarrow> nat \<Rightarrow> string" where
  "statusAt evs a l =
     (case js_index evs a of
        None \<Rightarrow> []
      | Some ev \<Rightarrow> (case js_index ev l of None \<Rightarrow> [] | Some v \<Rightarrow> v))"

definition keyRows :: "string list list" where
  "keyRows =
     [[''Q'', ''W'', ''E'', ''R'', ''T'', ''Y'', ''U'', ''I'', ''O'', ''P''],
      [''A'', ''S'', ''D'', ''F'', ''G'', ''H'', ''J'', ''K'', ''L''],
      [''Enter'', ''Z'', ''X'', ''C'', ''V'', ''B'', ''N'', ''M'', ''Backspace'']]"

definition getKeyColor :: "keyboard \<Rightarrow> string \<Rightarrow> string" where
  "getKeyColor kb key =
     (if key = ''Enter'' \<or> key = ''Backspace'' then ''bg-gray-200''
      else if kb key = Some ''correct'' then ''bg-green-500 text-white''
      else if kb key = Some ''present'' then ''bg-yellow-500 text-white''
      else if kb key = Some ''absent'' then ''bg-gray-500 text-white''
      else ''bg-gray-200'')"

datatype modal = Closed | Loading | NoStatistics | Statistics stats

record screen =
  sc_loader :: bool
  sc_error :: "string option"
  sc_rows :: "(string \<times> string) list list"
  sc_current :: "string option list option"
  sc_emptyRows :: nat
  sc_message :: "string option"
  sc_keys :: "(string \<times> string) list list option"
  sc_modal :: modal

definition render :: "nat \<Rightarrow> nat \<Rightarrow> board \<Rightarrow> screen" where
  "render maxAttempts wordLength s =
     \<lparr>sc_loader = isLoading s,
      sc_error = (if falsy (error s) then None else error s),
      sc_rows =
        map (\<lambda>(a, row). map (\<lambda>(l, letter). (letter, getStatusColor (statusAt (evaluations s) a l)))
                          (zip [0..<length row] row))
            (zip [0..<length (attempts s)] (attempts s)),
      sc_current = (if gameStatus s = Playing then Some (currentAttempt s) else None),
      sc_emptyRows =
        (if gameStatus s = Playing
         then nat (int maxAttempts - int (length (attempts s)) - 1) else 0),
      sc_message =
        (case gameStatus s of
           Won \<Rightarrow> Some ''You won!''
         | Lost \<Rightarrow> Some (''Game over! The word was: '' @
                          (case solution s of None \<Rightarrow> [] | Some w \<Rightarrow> w))
         | Playing \<Rightarrow> None),
      sc_keys =
        (if gameStatus s = Playing
         then Some (map (map (\<lambda>key. (key, getKeyColor (keyboardStatus s) key))) keyRows)
         else None),
      sc_modal =
        (if \<not> statsOpen s then Closed
         else if statsLoading s then Loading
         else case boardStats s of None \<Rightarrow> NoStatistics | Some st \<Rightarrow> Statistics st)\<rparr>"

section \<open>The board that keeps the game locally (second GameBoard of components/GameStats.tsx)\<close>

text \<open>
  This variant holds the whole grid, the current row and column and the status in the
  component, and asks the server only to check a word. The reply of the check carries the
  win flag \<open>correct\<close> and the verdicts \<open>evaluation\<close>.
\<close>

record checkResult =
  correct :: bool
  evaluation :: "string list"

















section \<open>The evaluator and the session state machine of the server\<close>

text \<open>
  The board asks a server for every verdict and every status. The server's code is not
  among the sources, so its evaluator (spec 4.1) and its session state machine (spec 4.2)
  are written here from the specification.
\<close>

text \<open>Modelled from the spec: the three verdict tags of spec 3 (the server's verdict
  type is not among the sources).\<close>

datatype verdict = Correct | Present | Absent

text \<open>Modelled from the spec: the error kinds the operations of spec 4 fail with (the
  server's errors are not among the sources).\<close>

datatype session_error = LengthMismatch | SessionTerminal | AttemptLimitReached

text \<open>Modelled from the spec: the per-letter remaining-count pool of the evaluator,
  initialised from the target's letter frequency (the server's evaluator is not among
  the sources).\<close>

type_synonym pool = "char \<Rightarrow> int"

definition frequency :: "string \<Rightarrow> pool" where
  "frequency target = (\<lambda>c. int (count_list target c))"

text \<open>Modelled from the spec: pass 1 of the evaluator (the server's evaluator is not
  among the sources). For each position, if guess and target agree there, the position
  is marked Correct and the letter's remaining count is decremented.\<close>

fun pass1 :: "(char \<times> char) list \<Rightarrow> pool \<Rightarrow> verdict option list \<times> pool" where
  "pass1 [] pool = ([], pool)"
| "pass1 ((g, t) # rest) pool =
     (if g = t
      then (case pass1 rest (pool(g := pool g - 1)) of
              (marks, pool') \<Rightarrow> (Some Correct # marks, pool'))
      else (case pass1 rest pool of (marks, pool') \<Rightarrow> (None # marks, pool')))"

text \<open>Modelled from the spec: pass 2 of the evaluator (the server's evaluator is not
  among the sources). For each position not already Correct, left to right: if the guess
  letter has remaining count above zero it is Present and the count is decremented,
  otherwise it is Absent.\<close>

fun pass2 :: "string \<Rightarrow> verdict option list \<Rightarrow> pool \<Rightarrow> verdict list" where
  "pass2 (g # gs) (Some v # marks) pool = v # pass2 gs marks pool"
| "pass2 (g # gs) (None # marks) pool =
     (if pool g > 0 then Present # pass2 gs marks (pool(g := pool g - 1))
      else Absent # pass2 gs marks pool)"
| "pass2 gs marks pool = []"

text \<open>Modelled from the spec: case normalisation of a word (the server's evaluator is
  not among the sources; letters are compared case-insensitively).\<close>

definition normalizeWord :: "string \<Rightarrow> string" where
  "normalizeWord w = map toUpperChar w"

text \<open>Modelled from the spec: \<open>evaluate(guess, target)\<close> of spec 4.1 (the server's
  evaluator is not among the sources). It fails with \<open>LengthMismatch\<close> unless the two
  words have the same length, and otherwise runs the two passes.\<close>

definition evaluate :: "string \<Rightarrow> string \<Rightarrow> session_error + verdict list" where
  "evaluate guess target =
     (if length guess \<noteq> length target then Inl LengthMismatch
      else
        let g = normalizeWord guess; t = normalizeWord target
        in case pass1 (zip g t) (frequency t) of
             (marks, pool) \<Rightarrow> Inr (pass2 g marks pool))"

text \<open>Modelled from the spec: an attempt and a session of spec 3 (the server's session
  store is not among the sources).\<close>

record attempt =
  a_guess :: string
  a_verdicts :: "verdict list"
  a_ordinal :: nat

record session =
  s_target :: string
  s_wordLength :: nat
  s_maxAttempts :: nat
  s_attempts :: "attempt list"
  s_keyboard :: "char \<Rightarrow> verdict option"
  s_status :: game_status

text \<open>Modelled from the spec: \<open>create\<close> of spec 4.2 (the server's state machine is
  not among the sources): an empty attempt sequence and the status Playing.\<close>

definition create :: "nat \<Rightarrow> nat \<Rightarrow> string \<Rightarrow> session" where
  "create wordLength maxAttempts target =
     \<lparr>s_target = target, s_wordLength = wordLength, s_maxAttempts = maxAttempts,
      s_attempts = [], s_keyboard = (\<lambda>_. None), s_status = Playing\<rparr>"

text \<open>Modelled from the spec: the upgrade-only merge of a verdict into the session's
  keyboard status, by the ranks Correct = 2, Present = 1, Absent = 0 (the server's
  state machine is not among the sources).\<close>

definition verdictRank :: "verdict \<Rightarrow> nat" where
  "verdictRank v = (case v of Correct \<Rightarrow> 2 | Present \<Rightarrow> 1 | Absent \<Rightarrow> 0)"

definition mergeVerdict :: "(char \<Rightarrow> verdict option) \<Rightarrow> char \<times> verdict \<Rightarrow> (char \<Rightarrow> verdict option)" where
  "mergeVerdict kb p =
     (case kb (fst p) of
        None \<Rightarrow> kb(fst p := Some (snd p))
      | Some old \<Rightarrow> if verdictRank old < verdictRank (snd p) then kb(fst p := Some (snd p)) else kb)"

text \<open>Modelled from the spec: \<open>submitGuess\<close> of spec 4.2 (the server's state machine
  is not among the sources). It fails on a terminal session, on a guess of the wrong
  length and at the attempt limit; otherwise it evaluates the guess, appends the attempt,
  merges the verdicts into the keyboard status and moves to Won, Lost or Playing. It
  returns the attempt, the new status and, only when that is no longer Playing, the
  target word.\<close>

record guessResult =
  r_attempt :: attempt
  r_status :: game_status
  r_word :: "string option"

definition spec_submitGuess :: "session \<Rightarrow> string \<Rightarrow> session_error + session \<times> guessResult" where
  "spec_submitGuess sess guess =
     (if s_status sess \<noteq> Playing then Inl SessionTerminal
      else if length guess \<noteq> s_wordLength sess then Inl LengthMismatch
      else if length (s_attempts sess) = s_maxAttempts sess then Inl AttemptLimitReached
      else case evaluate guess (s_target sess) of
        Inl e \<Rightarrow> Inl e
      | Inr verdicts \<Rightarrow>
          let a = \<lparr>a_guess = guess, a_verdicts = verdicts,
                   a_ordinal = length (s_attempts sess) + 1\<rparr>;
              log = s_attempts sess @ [a];
              kb = foldl mergeVerdict (s_keyboard sess) (zip (normalizeWord guess) verdicts);
              st = (if list_all (\<lambda>v. v = Correct) verdicts then Won
                    else if length log = s_maxAttempts sess then Lost else Playing)
          in Inr (sess\<lparr>s_attempts := log, s_keyboard := kb, s_status := st\<rparr>,
                  \<lparr>r_attempt = a, r_status = st,
                   r_word = (if st \<noteq> Playing then Some (s_target sess) else None)\<rparr>))"

text \<open>Modelled from the spec: \<open>currentView\<close> of spec 4.2 (the server's state machine
  is not among the sources): the attempts, the keyboard status, the status and, if the
  session is terminal, the target word.\<close>

record sessionView =
  v_attempts :: "attempt list"
  v_keyboard :: "char \<Rightarrow> verdict option"
  v_status :: game_status
  v_word :: "string option"

definition currentView :: "session \<Rightarrow> sessionView" where
  "currentView sess =
     \<lparr>v_attempts = s_attempts sess, v_keyboard = s_keyboard sess, v_status = s_status sess,
      v_word = (if s_status sess \<noteq> Playing then Some (s_target sess) else None)\<rparr>"

text \<open>Modelled from the spec: the view as the JSON that \<open>GET /api/game/<id>\<close> carries
  (spec 6; the server's encoder is not among the sources), in the shape the interface
  \<open>GameResponse\<close> of the API layer declares, verdicts written as the strings the board
  compares with.\<close>

definition verdictString :: "verdict \<Rightarrow> string" where
  "verdictString v = (case v of Correct \<Rightarrow> ''correct'' | Present \<Rightarrow> ''present'' | Absent \<Rightarrow> ''absent'')"

definition wireView :: "sessionView \<Rightarrow> gameData" where
  "wireView v =
     \<lparr>d_error = None, d_attempts = map a_guess (v_attempts v),
      d_evaluations = map (\<lambda>a. map verdictString (a_verdicts a)) (v_attempts v),
      d_game_status = v_status v, d_word = v_word v\<rparr>"

section \<open>Notions used to state the properties\<close>

subsection \<open>Verdicts and their ranks\<close>








text \<open>The game-state reply that \<open>loadGameState\<close> accepts: JSON without an error field.\<close>

definition loadedView :: "server \<Rightarrow> gameData \<Rightarrow> bool" where
  "loadedView srv data = (gameReply srv = Json data \<and> falsy (d_error data))"

subsection \<open>The merge seen from one letter\<close>

text \<open>What one step of the merge does to the entry of the letter it visits, and the
  statuses (\<open>undefined\<close> included) that the loops hand to a letter.\<close>

definition upgradeValue :: "string option \<Rightarrow> string option \<Rightarrow> string option" where
  "upgradeValue cur status =
     (if falsy cur \<or> (cur = Some ''absent'' \<and> status \<noteq> Some ''absent'') \<or>
         (cur = Some ''present'' \<and> status = Some ''correct'')
      then status else cur)"

fun receivedFrom :: "nat \<Rightarrow> string list \<Rightarrow> string list \<Rightarrow> string \<Rightarrow> string option list" where
  "receivedFrom i ev [] l = []"
| "receivedFrom i ev (letter # rest) l =
     (if letter = l then [js_index ev i] else []) @ receivedFrom (Suc i) ev rest l"

fun receivedAll ::
  "nat \<Rightarrow> string list list \<Rightarrow> string list \<Rightarrow> string \<Rightarrow> string option list" where
  "receivedAll i evs [] l = []"
| "receivedAll i evs (word # rest) l =
     (case js_index evs i of
        None \<Rightarrow> receivedAll (Suc i) evs rest l
      | Some ev \<Rightarrow>
          receivedFrom 0 ev (splitChars word) l @ receivedAll (Suc i) evs rest l)"

text \<open>Entries that the next status overwrites whatever it is (\<open>loose\<close>), entries that
  never change again (\<open>final\<close>), and entries that are a verdict or nothing.\<close>

definition loose :: "string option \<Rightarrow> bool" where
  "loose v = (falsy v \<or> v = Some ''absent'')"

definition final :: "string option \<Rightarrow> bool" where
  "final v = (\<not> loose v \<and> v \<noteq> Some ''present'')"


subsection \<open>The shape of the current-attempt buffer\<close>

text \<open>The number of cells typed so far (the cells before the first empty one), and the
  buffer's shape: \<open>wordLength\<close> cells, single uppercase letters first, then only empty
  cells.\<close>

definition typed :: "string option list \<Rightarrow> nat" where
  "typed cells = length (takeWhile (\<lambda>c. c \<noteq> Some []) cells)"

definition isLetterCell :: "string option \<Rightarrow> bool" where
  "isLetterCell c = (case c of Some [x] \<Rightarrow> isUpper x | _ \<Rightarrow> False)"

definition wellFormed :: "nat \<Rightarrow> string option list \<Rightarrow> bool" where
  "wellFormed wordLength cells =
     (length cells = wordLength \<and>
      list_all isLetterCell (takeWhile (\<lambda>c. c \<noteq> Some []) cells) \<and>
      list_all (\<lambda>c. c = Some []) (dropWhile (\<lambda>c. c \<noteq> Some []) cells))"

definition letterCell :: "char \<Rightarrow> string option" where
  "letterCell c = Some [c]"

subsection \<open>What a guess submission results in\<close>

text \<open>The status the server reports for a submission, when the guess was sent and the
  server answered it without an error; \<open>None\<close> when the guess was not sent or the
  submission failed.\<close>

definition guessOutcome :: "nat \<Rightarrow> server \<Rightarrow> string \<Rightarrow> board \<Rightarrow> game_status option" where
  "guessOutcome wordLength srv word s =
     (case gameId s of
        None \<Rightarrow> None
      | Some ident \<Rightarrow>
          if ident = [] \<or> length word \<noteq> wordLength \<or> gameStatus s \<noteq> Playing then None
          else (case guessReply srv of
                  Json data \<Rightarrow> if falsy (g_error data) then Some (g_game_status data) else None
                | _ \<Rightarrow> None))"

subsection \<open>Failures of the API layer\<close>

text \<open>A result that surfaces what the fetch did: a rejected fetch and a reply that is
  not ok become two different errors, and data is returned as it came.\<close>

definition surfaced :: "'a fetched \<Rightarrow> js_error + 'a \<Rightarrow> bool" where
  "surfaced reply result =
     ((reply = Rejected \<longrightarrow> result = Inl FetchFailed) \<and>
      (reply = NotOk \<longrightarrow> result = Inl (Error ''Network response was not ok'')) \<and>
      (\<forall>d. reply = Json d \<longrightarrow> result = Inr d))"

subsection \<open>Counting letters in a guess\<close>

text \<open>For a letter \<open>c\<close>: the target positions holding \<open>c\<close> that the guess does not
  match exactly, the guess positions before \<open>i\<close> holding \<open>c\<close> that are not exact
  matches, the exact matches of \<open>c\<close>, and the positions before \<open>i\<close> where \<open>c\<close> was
  credited as Present.\<close>

definition unmatched :: "string \<Rightarrow> string \<Rightarrow> char \<Rightarrow> nat" where
  "unmatched g t c = length (filter (\<lambda>(x, y). x \<noteq> y \<and> y = c) (zip g t))"

definition earlier :: "string \<Rightarrow> string \<Rightarrow> nat \<Rightarrow> char \<Rightarrow> nat" where
  "earlier g t i c = length (filter (\<lambda>(x, y). x \<noteq> y \<and> x = c) (take i (zip g t)))"

definition exact :: "string \<Rightarrow> string \<Rightarrow> char \<Rightarrow> nat" where
  "exact g t c = length (filter (\<lambda>(x, y). x = y \<and> y = c) (zip g t))"

definition creditedBefore :: "string \<Rightarrow> verdict list \<Rightarrow> nat \<Rightarrow> char \<Rightarrow> nat" where
  "creditedBefore g vs i c = length (filter (\<lambda>(x, v). x = c \<and> v = Present) (take i (zip g vs)))"

text \<open>The mark pass 1 leaves at a position, and the verdict of a position given the pool
  pass 2 starts from.\<close>

definition mark :: "char \<times> char \<Rightarrow> verdict option" where
  "mark p = (if fst p = snd p then Some Correct else None)"

definition verdictAt :: "(char \<times> char) list \<Rightarrow> pool \<Rightarrow> nat \<Rightarrow> verdict" where
  "verdictAt ps pool i =
     (if fst (ps ! i) = snd (ps ! i) then Correct
      else if int (length (filter (\<lambda>(x, y). x \<noteq> y \<and> x = fst (ps ! i)) (take i ps)))
                < pool (fst (ps ! i))
      then Present else Absent)"

subsection \<open>Concealing the target\<close>

text \<open>A board that holds no solution while its game is being played, and a game-state
  reply that carries no word while its status is Playing.\<close>

definition concealed :: "board \<Rightarrow> bool" where
  "concealed s = (gameStatus s = Playing \<longrightarrow> solution s = None)"

definition replyConceals :: "server \<Rightarrow> bool" where
  "replyConceals srv =
     (case gameReply srv of
        Json data \<Rightarrow> d_game_status data = Playing \<longrightarrow> d_word data = None
      | _ \<Rightarrow> True)"

subsection \<open>The exactly rounded percentage\<close>

text \<open>\<open>round(100 * won / played)\<close> in exact arithmetic, ties going up, and the largest
  relative error of one rounding to a double.\<close>

definition percentExact :: "int \<Rightarrow> int \<Rightarrow> int" where
  "percentExact w p = \<lfloor>100 * of_int w / of_int p + (1 / 2 :: rat)\<rfloor>"

definition exactPercentage :: "stats \<Rightarrow> int" where
  "exactPercentage st = percentExact (won st) (played st)"

definition ulp53 :: rat where
  "ulp53 = 1 / 2 ^ 53"

section \<open>Example boards and replies\<close>

definition noKeys :: keyboard where
  "noKeys = (\<lambda>_. None)"

definition freshBoard :: board where
  "freshBoard = \<lparr>gameId = Some ''g1'', attempts = [], evaluations = [],
     currentAttempt = emptyRow 5, gameStatus = Playing, keyboardStatus = noKeys,
     isLoading = False, error = None, solution = None, statsOpen = False,
     boardStats = None, statsLoading = False, calls = []\<rparr>"

definition wonBoard :: board where
  "wonBoard = freshBoard\<lparr>attempts := [splitChars ''CRANE''],
     evaluations := [[''correct'', ''correct'', ''correct'', ''correct'', ''correct'']],
     gameStatus := Won, solution := Some ''CRANE''\<rparr>"

definition wonView :: gameData where
  "wonView = \<lparr>d_error = None, d_attempts = [''CRANE''],
     d_evaluations = [[''correct'', ''correct'', ''correct'', ''correct'', ''correct'']],
     d_game_status = Won, d_word = Some ''CRANE''\<rparr>"

definition winningServer :: server where
  "winningServer = \<lparr>newGameReply = Json ''g2'', gameReply = Json wonView,
     guessReply = Json \<lparr>g_error = None, g_game_status = Won\<rparr>,
     statsDoc = ReadFailed, statsReply = Rejected\<rparr>"

text \<open>A game in progress: the letter A is absent in the first attempt and present in
  the second.\<close>

definition playingView :: gameData where
  "playingView = \<lparr>d_error = None, d_attempts = [''AB'', ''CA''],
     d_evaluations = [[''absent'', ''absent''], [''absent'', ''present'']],
     d_game_status = Playing, d_word = None\<rparr>"

definition playingServer :: server where
  "playingServer = \<lparr>newGameReply = Json ''g2'', gameReply = Json playingView,
     guessReply = Json \<lparr>g_error = None, g_game_status = Playing\<rparr>,
     statsDoc = ReadFailed, statsReply = Rejected\<rparr>"

definition keysAB :: keyboard where
  "keysAB = noKeys(''A'' := Some ''absent'', ''B'' := Some ''present'')"




text \<open>Statistics of 23 games won out of 40, and of 1 out of 3.\<close>

definition stats23of40 :: stats where
  "stats23of40 = \<lparr>played = 40, won = 23, current_streak = 0, max_streak = 0,
     guess_distribution = []\<rparr>"

definition stats1of3 :: stats where
  "stats1of3 = \<lparr>played = 3, won = 1, current_streak = 0, max_streak = 0,
     guess_distribution = []\<rparr>"

text \<open>A board that holds statistics fetched earlier.\<close>

definition statsBoard :: board where
  "statsBoard = freshBoard\<lparr>boardStats := Some stats23of40\<rparr>"

section \<open>Terminal sessions accept no guess\<close>

text \<open>
  C4 (as stated, refuted): on a board whose game is won, \<open>submitGuess\<close> reports no error
  at all. The handler returns nothing and its only error channel, the \<open>error\<close> state,
  stays empty, and no request is sent that a server could refuse: the guard
  \<open>gameStatus !== "playing"\<close> returns silently, there is no \<open>SessionTerminal\<close>
  failure.
\<close>

theorem submitGuess_terminal_reports_nothing:
  "gameStatus wonBoard = Won \<and>
   error (submitGuess 5 winningServer ''HELLO'' wonBoard) = None \<and>
   calls (submitGuess 5 winningServer ''HELLO'' wonBoard) = []"
  by (simp add: wonBoard_def freshBoard_def submitGuess_def)

text \<open>
  C4 (amended): on a board whose status is Won or Lost, a further \<open>submitGuess\<close> call and
  any key press are ignored: no request is sent, no error is reported, and the whole
  state (attempts, evaluations, status and every other cell) is exactly what it was.
\<close>

theorem terminal_board_unchanged:
  "gameStatus s \<noteq> Playing \<Longrightarrow>
     submitGuess wordLength srv word s = s \<and> handleKeyPress wordLength srv key s = s"
  by (simp add: submitGuess_def handleKeyPress_def split: option.splits)

theorem terminal_board_unchanged_witness:
  "gameStatus wonBoard \<noteq> Playing \<and>
   submitGuess 5 winningServer ''HELLO'' wonBoard = wonBoard \<and>
   handleKeyPress 5 winningServer ''Enter'' wonBoard = wonBoard"
proof -
  have w: "gameStatus wonBoard \<noteq> Playing"
    by (simp add: wonBoard_def freshBoard_def)
  show ?thesis
    using w terminal_board_unchanged [OF w, of 5 winningServer "''HELLO''" "''Enter''"]
    by simp
qed

section \<open>The keyboard merge, letter by letter\<close>

lemma upgradeKey_apply:
  "upgradeKey kb letter status l = (if l = letter then upgradeValue (kb letter) status else kb l)"
  by (simp add: upgradeKey_def upgradeValue_def)

lemma mergeFrom_apply:
  "mergeFrom i ev letters kb l = foldl upgradeValue (kb l) (receivedFrom i ev letters l)"
  by (induction letters arbitrary: i kb) (simp_all add: upgradeKey_apply)

lemma mergeAttempts_apply:
  "mergeAttempts i evs words kb = Inr kb' \<Longrightarrow>
   kb' l = foldl upgradeValue (kb l) (receivedAll i evs words l)"
proof (induction words arbitrary: i kb)
  case Nil
  then show ?case by simp
next
  case (Cons word rest)
  show ?case
  proof (cases "js_index evs i")
    case None
    with Cons.prems have "word = []" and r: "mergeAttempts (Suc i) evs rest kb = Inr kb'"
      by (simp_all split: if_splits)
    from Cons.IH [OF r] None show ?thesis by simp
  next
    case (Some ev)
    with Cons.prems have r: "mergeAttempts (Suc i) evs rest (mergeFrom 0 ev (splitChars word) kb) = Inr kb'"
      by simp
    from Cons.IH [OF r] Some show ?thesis by (simp add: mergeFrom_apply)
  qed
qed

text \<open>Whether the fold throws does not depend on the keyboard it starts from.\<close>

lemma mergeAttempts_throws:
  "mergeAttempts i evs words kb = Inr kb' \<Longrightarrow> \<exists>kb''. mergeAttempts i evs words kc = Inr kb''"
proof (induction words arbitrary: i kb kc)
  case Nil
  then show ?case by simp
next
  case (Cons word rest)
  then show ?case
    by (cases "js_index evs i") (auto split: if_splits)
qed

subsection \<open>Folding the same statuses twice\<close>

lemma up_loose: "loose c \<Longrightarrow> upgradeValue c x = x"
  by (auto simp: loose_def upgradeValue_def)

lemma up_sticky: "\<not> loose c \<Longrightarrow> upgradeValue c x = (if c = Some ''present'' \<and> x = Some ''correct'' then x else c)"
  by (auto simp: loose_def upgradeValue_def)

lemma up_sticky_stays: "\<not> loose c \<Longrightarrow> \<not> loose (upgradeValue c x)"
  by (auto simp: up_sticky loose_def falsy_def)

lemma fold_sticky_stays: "\<not> loose c \<Longrightarrow> \<not> loose (foldl upgradeValue c xs)"
  by (induction xs arbitrary: c) (simp_all add: up_sticky_stays)

lemma fold_loose_last:
  "loose (foldl upgradeValue c xs) \<Longrightarrow> foldl upgradeValue c xs = (if xs = [] then c else last xs) \<and> loose c \<and> (\<forall>x\<in>set xs. loose x)"
proof (induction xs arbitrary: c)
  case Nil
  then show ?case by simp
next
  case (Cons x xs)
  have lc: "loose c"
    using Cons.prems fold_sticky_stays [of "upgradeValue c x" xs] up_sticky_stays [of c x] by auto
  then have ux: "upgradeValue c x = x" by (rule up_loose)
  with Cons.prems have "loose (foldl upgradeValue x xs)" by simp
  from Cons.IH [OF this] lc ux show ?case by auto
qed

lemma fold_all_loose:
  "loose c \<Longrightarrow> \<forall>x\<in>set xs. loose x \<Longrightarrow> foldl upgradeValue c xs = (if xs = [] then c else last xs)"
  by (induction xs arbitrary: c) (auto simp: up_loose)

lemma up_final: "final c \<Longrightarrow> upgradeValue c x = c"
  by (auto simp: final_def up_sticky)

lemma fold_final: "final c \<Longrightarrow> foldl upgradeValue c xs = c"
  by (induction xs) (simp_all add: up_final)

lemma fold_correct_final:
  "Some ''correct'' \<in> set xs \<Longrightarrow> final (foldl upgradeValue c xs)"
proof (induction xs arbitrary: c)
  case Nil
  then show ?case by simp
next
  case (Cons x xs)
  show ?case
  proof (cases "x = Some ''correct''")
    case True
    have "final (upgradeValue c x)"
      using True by (auto simp: final_def upgradeValue_def loose_def falsy_def)
    then show ?thesis by (simp add: fold_final)
  next
    case False
    with Cons show ?thesis by simp
  qed
qed

lemma fold_present_stays:
  "Some ''correct'' \<notin> set xs \<Longrightarrow> foldl upgradeValue (Some ''present'') xs = Some ''present''"
  by (induction xs) (auto simp: upgradeValue_def falsy_def)

lemma fold_idem: "foldl upgradeValue (foldl upgradeValue c xs) xs = foldl upgradeValue c xs"
proof -
  let ?f = "foldl upgradeValue c xs"
  consider (l) "loose ?f" | (f) "final ?f" | (p) "?f = Some ''present''"
    by (auto simp: final_def)
  then show ?thesis
  proof cases
    case l
    from fold_loose_last [OF l] have e: "?f = (if xs = [] then c else last xs)" and a: "\<forall>x\<in>set xs. loose x"
      by auto
    from fold_all_loose [OF l a] e show ?thesis by auto
  next
    case f
    then show ?thesis by (rule fold_final)
  next
    case p
    have "Some ''correct'' \<notin> set xs"
    proof
      assume "Some ''correct'' \<in> set xs"
      from fold_correct_final [OF this, of c] p show False by (simp add: final_def)
    qed
    with p show ?thesis by (simp add: fold_present_stays)
  qed
qed

lemma mergeAttempts_idem:
  assumes "mergeAttempts i evs words kb = Inr kb1"
  shows "mergeAttempts i evs words kb1 = Inr kb1"
proof -
  from mergeAttempts_throws [OF assms] obtain kb2 where k2: "mergeAttempts i evs words kb1 = Inr kb2"
    by blast
  have "kb2 l = kb1 l" for l
    using mergeAttempts_apply [OF k2, of l] mergeAttempts_apply [OF assms, of l]
    by (simp add: fold_idem)
  then have "kb2 = kb1" by (rule ext)
  with k2 show ?thesis by simp
qed

subsection \<open>Folding verdicts gives the best one\<close>








lemma load_keys:
  "keyboardStatus (loadGameState srv ident s) =
     (case gameReply srv of
        Json data \<Rightarrow>
          if \<not> falsy (d_error data) then keyboardStatus s
          else (case mergeAttempts 0 (d_evaluations data) (d_attempts data) (keyboardStatus s) of
                  Inl e \<Rightarrow> keyboardStatus s | Inr kb \<Rightarrow> kb)
      | _ \<Rightarrow> keyboardStatus s)"
  by (simp add: loadGameState_def Let_def split: fetched.splits sum.splits)

lemma load_keys_cong:
  "keyboardStatus t = keyboardStatus s \<Longrightarrow>
   keyboardStatus (loadGameState srv ident t) = keyboardStatus (loadGameState srv ident s)"
  by (simp add: load_keys split: fetched.splits sum.splits)

lemma load_keys_idem:
  "keyboardStatus (loadGameState srv ident (loadGameState srv ident s)) =
   keyboardStatus (loadGameState srv ident s)"
proof (cases "gameReply srv")
  case (Json data)
  show ?thesis
  proof (cases "mergeAttempts 0 (d_evaluations data) (d_attempts data) (keyboardStatus s)")
    case (Inl e)
    with Json show ?thesis by (simp add: load_keys)
  next
    case (Inr kb)
    from mergeAttempts_idem [OF Inr] Inr Json show ?thesis by (simp add: load_keys)
  qed
qed (simp_all add: load_keys)







text \<open>
  C9: merging the same attempts and evaluations into a keyboard that already reflects
  them gives the same keyboard again, whatever the statuses are, and reloading the same
  game state any number of times leaves the keyboard status as the first load left it.
\<close>

theorem keyboard_merge_idempotent:
  "(mergeAttempts 0 evs words kb = Inr kb1 \<longrightarrow> mergeAttempts 0 evs words kb1 = Inr kb1) \<and>
   keyboardStatus ((loadGameState srv ident ^^ n) (loadGameState srv ident s)) =
     keyboardStatus (loadGameState srv ident s)"
proof -
  have "keyboardStatus ((loadGameState srv ident ^^ n) (loadGameState srv ident s)) =
     keyboardStatus (loadGameState srv ident s)"
  proof (induction n)
    case 0
    show ?case by simp
  next
    case (Suc n)
    from load_keys_cong [OF Suc] show ?case by (simp add: load_keys_idem)
  qed
  then show ?thesis using mergeAttempts_idem by blast
qed

theorem keyboard_merge_idempotent_witness:
  "mergeAttempts 0 [[''absent'', ''present'']] [''AB''] noKeys = Inr keysAB \<and>
   mergeAttempts 0 [[''absent'', ''present'']] [''AB''] keysAB = Inr keysAB \<and>
   keyboardStatus ((loadGameState playingServer ''g1'' ^^ 3)
                     (loadGameState playingServer ''g1'' freshBoard)) =
     keyboardStatus (loadGameState playingServer ''g1'' freshBoard)"
proof -
  have h: "mergeAttempts 0 [[''absent'', ''present'']] [''AB''] noKeys = Inr keysAB"
    by (simp add: js_index_def splitChars_def upgradeKey_def falsy_def noKeys_def keysAB_def)
  from h keyboard_merge_idempotent [where evs = "[[''absent'', ''present'']]"
      and words = "[''AB'']" and kb = noKeys and ?kb1.0 = keysAB and srv = playingServer
      and ident = "''g1''" and n = 3 and s = freshBoard]
  show ?thesis by blast
qed

section \<open>The current-attempt buffer\<close>

lemma takeWhile_cells:
  "takeWhile (\<lambda>c. c \<noteq> Some []) (map letterCell letters @ replicate n (Some [])) =
   map letterCell letters"
  by (induction letters) (simp_all add: letterCell_def takeWhile_replicate)

lemma dropWhile_cells:
  "dropWhile (\<lambda>c. c \<noteq> Some []) (map letterCell letters @ replicate n (Some [])) =
   replicate n (Some [])"
  by (induction letters) (simp_all add: letterCell_def dropWhile_replicate)

lemma wellFormed_iff:
  "wellFormed W cells \<longleftrightarrow>
   (\<exists>letters. length letters \<le> W \<and> list_all isUpper letters \<and>
      cells = map letterCell letters @ replicate (W - length letters) (Some []))"
  (is "?l = ?r")
proof
  assume l: ?l
  let ?p = "takeWhile (\<lambda>c. c \<noteq> Some []) cells" and ?q = "dropWhile (\<lambda>c. c \<noteq> Some []) cells"
  from l have len: "length cells = W" and p: "list_all isLetterCell ?p" and q: "list_all (\<lambda>c. c = Some []) ?q"
    by (simp_all add: wellFormed_def)
  have "\<exists>letters. xs = map letterCell letters \<and> list_all isUpper letters" if "list_all isLetterCell xs" for xs
    using that
  proof (induction xs)
    case Nil
    then show ?case by simp
  next
    case (Cons a xs)
    then obtain letters where ls: "xs = map letterCell letters" "list_all isUpper letters" by auto
    from Cons.prems obtain x where "a = letterCell x" "isUpper x"
      by (auto simp: isLetterCell_def letterCell_def split: option.splits list.splits)
    with ls have "a # xs = map letterCell (x # letters) \<and> list_all isUpper (x # letters)" by simp
    then show ?case by (rule exI)
  qed
  from this [OF p] obtain letters where ls: "?p = map letterCell letters" "list_all isUpper letters" by blast
  from q have q': "?q = replicate (length ?q) (Some [])"
    by (metis (mono_tags, lifting) list_all_iff replicate_length_same)
  have c: "cells = ?p @ ?q" by simp
  from c have "length ?p + length ?q = length cells" by (metis length_append)
  with ls len have n: "length ?q = W - length letters" "length letters \<le> W"
    by (auto dest: arg_cong [where f = length])
  from c ls q' n have "cells = map letterCell letters @ replicate (W - length letters) (Some [])"
    by metis
  with n ls show ?r by blast
next
  assume ?r
  then obtain letters where n: "length letters \<le> W" and u: "list_all isUpper letters"
    and c: "cells = map letterCell letters @ replicate (W - length letters) (Some [])" by blast
  have tw: "takeWhile (\<lambda>c. c \<noteq> Some []) cells = map letterCell letters"
    unfolding c by (rule takeWhile_cells)
  have dw: "dropWhile (\<lambda>c. c \<noteq> Some []) cells = replicate (W - length letters) (Some [])"
    unfolding c by (rule dropWhile_cells)
  show ?l
    unfolding wellFormed_def tw dw using n u c
    by (auto simp: list_all_iff isLetterCell_def letterCell_def)
qed

lemma findIndexFrom_typed:
  "findIndexFrom i cells = (if typed cells < length cells then i + int (typed cells) else -1)"
  by (induction cells arbitrary: i) (simp_all add: typed_def)

lemma findIndexEmpty_typed:
  "findIndexEmpty cells = (if typed cells < length cells then int (typed cells) else -1)"
  by (simp add: findIndexEmpty_def findIndexFrom_typed)

lemma typed_le: "typed cells \<le> length cells"
  by (simp add: typed_def length_takeWhile_le)

lemma toUpperChar_upper: "isLower c \<or> isUpper c \<Longrightarrow> isUpper (toUpperChar c)"
  by (auto simp: toUpperChar_def isLower_def isUpper_def)

lemma typed_cells: "typed (map letterCell letters @ replicate n (Some [])) = length letters"
  by (simp add: typed_def takeWhile_cells)

lemma fill_cell:
  assumes "length letters < W"
  shows "(map letterCell letters @ replicate (W - length letters) (Some []))
            [length letters := Some [u]] =
         map letterCell (letters @ [u]) @ replicate (W - length (letters @ [u])) (Some [])"
proof -
  from assms obtain m where m: "W - length letters = Suc m" by (cases "W - length letters") auto
  then have "W - length (letters @ [u]) = m" by simp
  with m show ?thesis by (simp add: list_update_append letterCell_def)
qed

lemma clear_cell:
  assumes "letters \<noteq> []" "length letters \<le> W"
  shows "(map letterCell letters @ replicate (W - length letters) (Some []))
            [length letters - 1 := Some []] =
         map letterCell (butlast letters) @ replicate (W - length (butlast letters)) (Some [])"
proof -
  from assms(1) obtain ls x where l: "letters = ls @ [x]" by (metis rev_exhaust)
  with assms(2) have "W - length ls = Suc (W - length letters)" by simp
  with l show ?thesis
    by (simp add: list_update_append replicate_app_Cons_same)
qed

lemma wellFormed_fill:
  assumes "wellFormed W cells" "typed cells < W" "isUpper u"
  shows "wellFormed W (cells[typed cells := Some [u]])"
proof -
  from assms(1) obtain letters where n: "length letters \<le> W" and u: "list_all isUpper letters"
    and c: "cells = map letterCell letters @ replicate (W - length letters) (Some [])"
    by (auto simp: wellFormed_iff)
  have t: "typed cells = length letters" by (simp add: c typed_cells)
  with assms(2) have lt: "length letters < W" by simp
  have "cells[typed cells := Some [u]] =
      map letterCell (letters @ [u]) @ replicate (W - length (letters @ [u])) (Some [])"
    unfolding t unfolding c by (rule fill_cell [OF lt])
  moreover have "length (letters @ [u]) \<le> W" "list_all isUpper (letters @ [u])"
    using lt u assms(3) by simp_all
  ultimately show ?thesis unfolding wellFormed_iff by blast
qed

lemma wellFormed_clear:
  assumes "wellFormed W cells" "0 < typed cells"
  shows "wellFormed W (cells[typed cells - 1 := Some []])"
proof -
  from assms(1) obtain letters where n: "length letters \<le> W" and u: "list_all isUpper letters"
    and c: "cells = map letterCell letters @ replicate (W - length letters) (Some [])"
    by (auto simp: wellFormed_iff)
  have t: "typed cells = length letters" by (simp add: c typed_cells)
  with assms(2) have ne: "letters \<noteq> []" by auto
  have "cells[typed cells - 1 := Some []] =
      map letterCell (butlast letters) @ replicate (W - length (butlast letters)) (Some [])"
    unfolding t unfolding c by (rule clear_cell [OF ne n])
  moreover have "length (butlast letters) \<le> W" "list_all isUpper (butlast letters)"
    using n u by (auto simp: list_all_iff dest: in_set_butlastD)
  ultimately show ?thesis unfolding wellFormed_iff by blast
qed

lemma wellFormed_emptyRow: "wellFormed W (emptyRow W)"
  unfolding wellFormed_iff emptyRow_def
  by (rule exI [of _ "[]"]) simp

lemma currentAttempt_loadGameState [simp]:
  "currentAttempt (loadGameState srv ident s) = currentAttempt s"
  by (simp add: loadGameState_def Let_def split: fetched.splits sum.splits)

lemma currentAttempt_fetchStats [simp]:
  "currentAttempt (fetchStats srv s) = currentAttempt s"
  by (simp add: fetchStats_def Let_def split: sum.splits)

lemma currentAttempt_submitGuess:
  "currentAttempt (submitGuess W srv word s) = currentAttempt s \<or>
   currentAttempt (submitGuess W srv word s) = emptyRow W"
  by (simp add: submitGuess_def Let_def split: option.splits fetched.splits)

lemma toUpperCase_key:
  "isLetterKey key \<Longrightarrow> \<exists>u. toUpperCase key = [u] \<and> isUpper u"
  by (auto simp: isLetterKey_def toUpperCase_def toUpperChar_upper split: list.splits)

lemma letter_not_special: "isLetterKey key \<Longrightarrow> key \<noteq> ''Enter'' \<and> key \<noteq> ''Backspace''"
  by (auto simp: isLetterKey_def)

lemma press_letter:
  assumes "gameStatus s = Playing" "\<not> isLoading s" "isLetterKey key"
    "length (currentAttempt s) = W"
  shows "handleKeyPress W srv key s =
           (if typed (currentAttempt s) < W
            then s\<lparr>currentAttempt :=
                    (currentAttempt s)[typed (currentAttempt s) := Some (toUpperCase key)]\<rparr>
            else s)"
  using assms letter_not_special [OF assms(3)] typed_le [of "currentAttempt s"]
  by (simp add: handleKeyPress_def findIndexEmpty_typed js_assign_def Let_def)

lemma press_backspace:
  assumes "gameStatus s = Playing" "\<not> isLoading s" "length (currentAttempt s) = W"
  shows "handleKeyPress W srv ''Backspace'' s =
           (if 0 < typed (currentAttempt s)
            then s\<lparr>currentAttempt := (currentAttempt s)[typed (currentAttempt s) - 1 := Some []]\<rparr>
            else s)"
proof (cases "typed (currentAttempt s) < W")
  case True
  then have "nat (int (typed (currentAttempt s)) - 1) = typed (currentAttempt s) - 1" by simp
  with True assms show ?thesis
    by (auto simp add: handleKeyPress_def findIndexEmpty_typed js_assign_def Let_def)
next
  case False
  with typed_le [of "currentAttempt s"] assms(3) have e: "typed (currentAttempt s) = W" by simp
  have "nat (int W - 1) = W - 1" by simp
  with e assms show ?thesis
    by (auto simp add: handleKeyPress_def findIndexEmpty_typed js_assign_def Let_def)
qed

lemma press_other:
  "key \<noteq> ''Enter'' \<Longrightarrow> key \<noteq> ''Backspace'' \<Longrightarrow> \<not> isLetterKey key \<Longrightarrow>
   handleKeyPress W srv key s = s"
  by (simp add: handleKeyPress_def)

lemma press_keeps_wellFormed:
  assumes "wellFormed W (currentAttempt s)"
  shows "wellFormed W (currentAttempt (handleKeyPress W srv key s))"
proof -
  from assms have len: "length (currentAttempt s) = W" by (simp add: wellFormed_def)
  consider (inactive) "gameStatus s \<noteq> Playing \<or> isLoading s"
    | (enterKey) "gameStatus s = Playing" "\<not> isLoading s" "key = ''Enter''"
    | (bs) "gameStatus s = Playing" "\<not> isLoading s" "key = ''Backspace''"
    | (lk) "gameStatus s = Playing" "\<not> isLoading s" "isLetterKey key"
    | (ok) "key \<noteq> ''Enter''" "key \<noteq> ''Backspace''" "\<not> isLetterKey key"
    by blast
  then show ?thesis
  proof cases
    case inactive
    then show ?thesis using assms by (auto simp: handleKeyPress_def)
  next
    case enterKey
    then show ?thesis
      using assms currentAttempt_submitGuess [of W srv "joinCells (currentAttempt s)" s]
        wellFormed_emptyRow [of W]
      by (auto simp: handleKeyPress_def Let_def)
  next
    case bs
    show ?thesis
      unfolding bs(3) press_backspace [OF bs(1,2) len]
      using assms wellFormed_clear [OF assms] by simp
  next
    case lk
    from toUpperCase_key [OF lk(3)] obtain u where u: "toUpperCase key = [u]" "isUpper u"
      by blast
    show ?thesis
      unfolding press_letter [OF lk len]
      using assms wellFormed_fill [OF assms _ u(2)] u(1) by simp
  next
    case ok
    then show ?thesis using assms by (simp add: press_other)
  qed
qed

text \<open>
  C8: every key event keeps the buffer well formed (\<open>wordLength\<close> cells, single
  uppercase letters first, then only empty cells). While the game is being played and
  nothing is loading, a letter key writes its uppercase letter into the leftmost empty
  cell and is ignored when the buffer is full, Backspace empties the rightmost filled
  cell and is ignored when the buffer is empty; a key that is neither a letter nor Enter
  nor Backspace changes nothing.
\<close>

theorem buffer_stays_wellFormed:
  assumes "wellFormed W (currentAttempt s)"
  shows "wellFormed W (currentAttempt (handleKeyPress W srv key s)) \<and>
    (gameStatus s = Playing \<and> \<not> isLoading s \<and> isLetterKey key \<longrightarrow>
       handleKeyPress W srv key s =
         (if typed (currentAttempt s) < W
          then s\<lparr>currentAttempt :=
                  (currentAttempt s)[typed (currentAttempt s) := Some (toUpperCase key)]\<rparr>
          else s)) \<and>
    (gameStatus s = Playing \<and> \<not> isLoading s \<longrightarrow>
       handleKeyPress W srv ''Backspace'' s =
         (if 0 < typed (currentAttempt s)
          then s\<lparr>currentAttempt :=
                  (currentAttempt s)[typed (currentAttempt s) - 1 := Some []]\<rparr>
          else s)) \<and>
    (key \<noteq> ''Enter'' \<and> key \<noteq> ''Backspace'' \<and> \<not> isLetterKey key \<longrightarrow>
       handleKeyPress W srv key s = s)"
proof -
  from assms have len: "length (currentAttempt s) = W" by (simp add: wellFormed_def)
  show ?thesis
    using press_keeps_wellFormed [OF assms] press_letter [OF _ _ _ len] press_backspace [OF _ _ len]
      press_other
    by blast
qed

theorem buffer_stays_wellFormed_witness:
  "wellFormed 5 (currentAttempt freshBoard) \<and>
   wellFormed 5 (currentAttempt (handleKeyPress 5 playingServer ''a'' freshBoard)) \<and>
   currentAttempt (handleKeyPress 5 playingServer ''a'' freshBoard) =
     [Some ''A'', Some [], Some [], Some [], Some []]"
proof -
  have w: "wellFormed 5 (currentAttempt freshBoard)"
    by (simp add: wellFormed_def freshBoard_def emptyRow_def numeral_eq_Suc)
  have g: "gameStatus freshBoard = Playing" "\<not> isLoading freshBoard" "isLetterKey ''a''"
    by (simp_all add: freshBoard_def isLetterKey_def isLower_def)
  have t: "typed (currentAttempt freshBoard) = 0"
    by (simp add: typed_def freshBoard_def emptyRow_def numeral_eq_Suc)
  have u: "toUpperCase ''a'' = ''A''"
    by code_simp
  have c: "currentAttempt freshBoard = [Some [], Some [], Some [], Some [], Some []]"
    by (simp add: freshBoard_def emptyRow_def numeral_eq_Suc)
  note b = buffer_stays_wellFormed [OF w, of playingServer "''a''"]
  from b have f: "wellFormed 5 (currentAttempt (handleKeyPress 5 playingServer ''a'' freshBoard))"
    by (rule conjunct1)
  from b g have "handleKeyPress 5 playingServer ''a'' freshBoard =
         (if typed (currentAttempt freshBoard) < 5
          then freshBoard\<lparr>currentAttempt :=
                  (currentAttempt freshBoard)[typed (currentAttempt freshBoard) := Some (toUpperCase ''a'')]\<rparr>
          else freshBoard)"
    by blast
  then have "currentAttempt (handleKeyPress 5 playingServer ''a'' freshBoard) =
     [Some ''A'', Some [], Some [], Some [], Some []]"
    unfolding t u by (simp add: c)
  with w f show ?thesis by simp
qed

section \<open>The attempt cap of the local board\<close>


lemma single_not_special: "[c] \<noteq> ''Enter''" "[c] \<noteq> ''Backspace''"
  by simp_all








section \<open>Statistics are fetched on terminal submissions only\<close>

lemma calls_loadGameState: "calls (loadGameState srv ident s) = calls s @ [GetGame ident]"
  by (simp add: loadGameState_def Let_def split: fetched.splits sum.splits)

lemma calls_fetchStats: "calls (fetchStats srv s) = calls s @ [GetStats]"
  by (simp add: fetchStats_def Let_def split: sum.splits)

lemma gameStatus_fetchStats: "gameStatus (fetchStats srv s) = gameStatus s"
  by (simp add: fetchStats_def Let_def split: sum.splits)

lemma gameStatus_loadGameState:
  "loadedView srv data \<Longrightarrow> gameStatus (loadGameState srv ident s) = d_game_status data"
  by (simp add: loadGameState_def loadedView_def Let_def split: sum.splits)

text \<open>
  C7: a guess submission makes exactly one statistics call when the guess was sent and
  the server answered it with the status Won or Lost, and none otherwise (the guess was
  not sent, the submission failed, or the status it resulted in is Playing). When the
  game state reloaded after the guess carries that same status, it is the status of the
  board after the submission.
\<close>

theorem stats_fetched_on_terminal_only:
  "count_list (calls (submitGuess W srv word s)) GetStats =
     count_list (calls s) GetStats +
       (if guessOutcome W srv word s = Some Won \<or> guessOutcome W srv word s = Some Lost
        then 1 else 0) \<and>
   (loadedView srv data \<and> guessOutcome W srv word s = Some (d_game_status data) \<longrightarrow>
      gameStatus (submitGuess W srv word s) = d_game_status data)"
proof -
  have a: "count_list (calls (submitGuess W srv word s)) GetStats =
     count_list (calls s) GetStats +
       (if guessOutcome W srv word s = Some Won \<or> guessOutcome W srv word s = Some Lost
        then 1 else 0)"
    by (simp add: submitGuess_def guessOutcome_def Let_def calls_loadGameState calls_fetchStats
        split: option.splits fetched.splits)
  have b: "gameStatus (submitGuess W srv word s) = d_game_status data"
    if "loadedView srv data" "guessOutcome W srv word s = Some (d_game_status data)"
    using that
    by (auto simp add: submitGuess_def guessOutcome_def Let_def gameStatus_fetchStats
        gameStatus_loadGameState split: option.splits fetched.splits if_splits)
  from a b show ?thesis by blast
qed

theorem stats_fetched_on_terminal_only_witness:
  "guessOutcome 5 winningServer ''CRANE'' freshBoard = Some Won \<and>
   count_list (calls (submitGuess 5 winningServer ''CRANE'' freshBoard)) GetStats = 1 \<and>
   gameStatus (submitGuess 5 winningServer ''CRANE'' freshBoard) = Won \<and>
   guessOutcome 5 playingServer ''CRANE'' freshBoard = Some Playing \<and>
   count_list (calls (submitGuess 5 playingServer ''CRANE'' freshBoard)) GetStats = 0 \<and>
   gameStatus (submitGuess 5 playingServer ''CRANE'' freshBoard) = Playing"
proof -
  have w: "guessOutcome 5 winningServer ''CRANE'' freshBoard = Some Won"
    by (simp add: guessOutcome_def winningServer_def freshBoard_def falsy_def)
  have p: "guessOutcome 5 playingServer ''CRANE'' freshBoard = Some Playing"
    by (simp add: guessOutcome_def playingServer_def freshBoard_def falsy_def)
  have c: "count_list (calls freshBoard) GetStats = 0" by (simp add: freshBoard_def)
  have vw: "loadedView winningServer wonView" "d_game_status wonView = Won"
    by (simp_all add: loadedView_def winningServer_def wonView_def falsy_def)
  have vp: "loadedView playingServer playingView" "d_game_status playingView = Playing"
    by (simp_all add: loadedView_def playingServer_def playingView_def falsy_def)
  from stats_fetched_on_terminal_only [of 5 winningServer "''CRANE''" freshBoard wonView]
    stats_fetched_on_terminal_only [of 5 playingServer "''CRANE''" freshBoard playingView]
    w p c vw vp
  show ?thesis by simp
qed

section \<open>Failures of the API layer\<close>

text \<open>
  The operations \<open>startNewGame\<close>, \<open>getGameState\<close> and \<open>submitGuess\<close> of the API layer,
  and \<open>getStats\<close> in its version without the Firestore cache, surface every failure to
  their caller, a rejected fetch and a reply that is not ok as two different errors.
\<close>

lemma api_operations_rethrow:
  "surfaced r1 (api_startNewGame r1) \<and>
   surfaced r2 (api_getGameState r2) \<and>
   surfaced r3 (api_submitGuess r3) \<and>
   surfaced r4 (services_getStats r4)"
  by (cases r1; cases r2; cases r3; cases r4)
     (simp_all add: api_startNewGame_def api_getGameState_def api_submitGuess_def
        services_getStats_def rethrowing_def surfaced_def)

text \<open>
  \<open>getStats\<close> with the Firestore cache never throws, whatever its two backing stores
  do, so the \<open>catch\<close> of its caller \<open>fetchStats\<close> is never entered.
\<close>

lemma getStats_never_throws: "\<exists>response. getStats fs r = Inr response"
  by (cases fs; cases r) (simp_all add: getStats_def)

text \<open>
  C6 (the code breaks the claim): when the Firestore read throws and the HTTP fetch is
  rejected, or answers with a status that is not ok, \<open>getStats\<close> returns a response with
  \<open>success = true\<close> and all-zero statistics, the very response it returns when the server
  reports the statistics of a player who never played: the caller cannot tell that an
  error occurred. On the same rejected fetch \<open>submitGuess\<close> of the same file and
  \<open>getStats\<close> of the version without the Firestore cache throw the error to their
  caller. \<open>fetchStats\<close>, which checks \<open>success\<close> and catches errors, then replaces the
  statistics the board holds by zeros and reports nothing.
\<close>

theorem getStats_failure_reported_as_success:
  "getStats ReadFailed Rejected =
     Inr \<lparr>success = True, stats = zeroStats, stats_error = None\<rparr> \<and>
   getStats NoDocument NotOk =
     Inr \<lparr>success = True, stats = zeroStats, stats_error = None\<rparr> \<and>
   getStats ReadFailed Rejected =
     getStats NoDocument (Json \<lparr>success = True, stats = zeroStats, stats_error = None\<rparr>) \<and>
   services_getStats Rejected = Inl FetchFailed \<and>
   api_submitGuess (Rejected :: guessData fetched) = Inl FetchFailed \<and>
   boardStats statsBoard = Some stats23of40 \<and>
   boardStats (fetchStats winningServer statsBoard) = Some zeroStats \<and>
   error (fetchStats winningServer statsBoard) = None"
  by (simp add: getStats_def services_getStats_def api_submitGuess_def rethrowing_def
        fetchStats_def winningServer_def statsBoard_def freshBoard_def)

section \<open>The two-pass evaluator\<close>

lemma pass1_result:
  "pass1 ps pool =
     (map mark ps, \<lambda>c. pool c - int (length (filter (\<lambda>(x, y). x = y \<and> y = c) ps)))"
proof (induction ps arbitrary: pool)
  case Nil
  then show ?case by simp
next
  case (Cons p ps)
  obtain g t where p: "p = (g, t)" by (cases p)
  show ?case
    unfolding p by (auto simp: Cons.IH mark_def fun_eq_iff)
qed

lemma pass2_length: "length (pass2 (map fst ps) (map mark ps) pool) = length ps"
proof (induction ps arbitrary: pool)
  case Nil
  then show ?case by simp
next
  case (Cons p ps)
  then show ?case by (cases p) (simp add: mark_def)
qed

lemma verdictAt_Cons:
  "verdictAt ((g, t) # ps) pool (Suc j) =
   verdictAt ps (if g \<noteq> t \<and> pool g > 0 then pool(g := pool g - 1) else pool) j"
  by (auto simp: verdictAt_def)

lemma pass2_Cons:
  "pass2 (map fst ((g, t) # ps)) (map mark ((g, t) # ps)) pool ! Suc j =
   pass2 (map fst ps) (map mark ps)
     (if g \<noteq> t \<and> pool g > 0 then pool(g := pool g - 1) else pool) ! j"
  by (simp add: mark_def)

lemma pass2_nth:
  "i < length ps \<Longrightarrow> pass2 (map fst ps) (map mark ps) pool ! i = verdictAt ps pool i"
proof (induction ps arbitrary: pool i)
  case Nil
  then show ?case by simp
next
  case (Cons p ps)
  obtain g t where p: "p = (g, t)" by (cases p)
  show ?case
  proof (cases i)
    case 0
    then show ?thesis by (simp add: p mark_def verdictAt_def)
  next
    case (Suc j)
    with Cons.prems have j: "j < length ps" by simp
    show ?thesis
      unfolding p Suc pass2_Cons verdictAt_Cons by (rule Cons.IH [OF j])
  qed
qed

lemma count_snd:
  "length g = length t \<Longrightarrow> count_list t c = length (filter (\<lambda>(x, y). y = c) (zip g t))"
proof (induction g t rule: list_induct2)
  case Nil
  then show ?case by simp
next
  case (Cons x xs y ys)
  then show ?case by simp
qed

lemma split_count:
  "length (filter (\<lambda>(x, y). y = c) ps) =
   length (filter (\<lambda>(x, y). x = y \<and> y = c) ps) + length (filter (\<lambda>(x, y). x \<noteq> y \<and> y = c) ps)"
  by (induction ps) auto

lemma pool_after_pass1:
  "length g = length t \<Longrightarrow>
   frequency t c - int (length (filter (\<lambda>(x, y). x = y \<and> y = c) (zip g t))) = int (unmatched g t c)"
  by (simp add: frequency_def count_snd [of g t c] split_count [of c "zip g t"] unmatched_def)

lemma evaluate_closed_form:
  assumes "length g = length t"
  shows "pass2 g (fst (pass1 (zip g t) (frequency t))) (snd (pass1 (zip g t) (frequency t))) =
         map (\<lambda>i. if g ! i = t ! i then Correct
                   else if earlier g t i (g ! i) < unmatched g t (g ! i) then Present
                   else Absent) [0..<length g]"
proof (rule nth_equalityI)
  let ?ps = "zip g t"
  let ?pool = "\<lambda>c. frequency t c - int (length (filter (\<lambda>(x, y). x = y \<and> y = c) ?ps))"
  have g: "map fst ?ps = g" using assms by simp
  have p1: "pass1 ?ps (frequency t) = (map mark ?ps, ?pool)" by (rule pass1_result)
  have l: "length (pass2 g (map mark ?ps) ?pool) = length g"
    using pass2_length [of ?ps ?pool] assms by (simp add: g)
  show "length (pass2 g (fst (pass1 ?ps (frequency t))) (snd (pass1 ?ps (frequency t)))) =
        length (map (\<lambda>i. if g ! i = t ! i then Correct
                   else if earlier g t i (g ! i) < unmatched g t (g ! i) then Present
                   else Absent) [0..<length g])"
    by (simp add: p1 l)
  fix i assume "i < length (pass2 g (fst (pass1 ?ps (frequency t))) (snd (pass1 ?ps (frequency t))))"
  then have i: "i < length g" by (simp add: p1 l)
  with assms have ip: "i < length ?ps" by simp
  have n: "?ps ! i = (g ! i, t ! i)" using i assms by simp
  have "pass2 g (map mark ?ps) ?pool ! i = verdictAt ?ps ?pool i"
    using pass2_nth [OF ip, of ?pool] by (simp add: g)
  also have "\<dots> = (if g ! i = t ! i then Correct
                   else if earlier g t i (g ! i) < unmatched g t (g ! i) then Present
                   else Absent)"
    by (simp add: verdictAt_def n pool_after_pass1 [OF assms] earlier_def)
  finally show "pass2 g (fst (pass1 ?ps (frequency t))) (snd (pass1 ?ps (frequency t))) ! i =
        map (\<lambda>i. if g ! i = t ! i then Correct
                   else if earlier g t i (g ! i) < unmatched g t (g ! i) then Present
                   else Absent) [0..<length g] ! i"
    using i by (simp add: p1)
qed

lemma earlier_Suc:
  "i < length g \<Longrightarrow> length g = length t \<Longrightarrow>
   earlier g t (Suc i) c = earlier g t i c + (if g ! i \<noteq> t ! i \<and> g ! i = c then 1 else 0)"
  by (simp add: earlier_def take_Suc_conv_app_nth)

lemma creditedBefore_Suc:
  "i < length g \<Longrightarrow> length vs = length g \<Longrightarrow>
   creditedBefore g vs (Suc i) c =
   creditedBefore g vs i c + (if g ! i = c \<and> vs ! i = Present then 1 else 0)"
  by (simp add: creditedBefore_def take_Suc_conv_app_nth)

lemma credited_min:
  assumes "length g = length t" "length vs = length g"
    and "\<And>j. j < length g \<Longrightarrow>
           (vs ! j = Present) = (g ! j \<noteq> t ! j \<and> earlier g t j (g ! j) < unmatched g t (g ! j))"
  shows "i \<le> length g \<Longrightarrow> creditedBefore g vs i c = min (earlier g t i c) (unmatched g t c)"
proof (induction i)
  case 0
  then show ?case by (simp add: creditedBefore_def earlier_def)
next
  case (Suc i)
  then have i: "i < length g" by simp
  with Suc have ih: "creditedBefore g vs i c = min (earlier g t i c) (unmatched g t c)" by simp
  show ?case
    unfolding creditedBefore_Suc [OF i assms(2)] earlier_Suc [OF i assms(1)] ih
    using assms(3) [OF i] by auto
qed

text \<open>
  C1: for a guess and a target of equal length the evaluator returns one verdict per
  position (letters compared after case normalisation). A position is Correct exactly
  when guess and target agree there. A position that is not Correct is Present exactly
  when its letter still has remaining count after the exact matches of that letter and
  the earlier Present credits of that letter are deducted from the target's frequency of
  it, and Absent otherwise. Equivalently it is Present exactly when fewer earlier
  non-exact guess positions hold its letter than the target has unmatched positions
  holding it: the leftmost occurrences are credited first and only the excess ones are
  Absent.
\<close>

theorem evaluate_two_pass:
  assumes "length guess = length target"
  shows "\<exists>vs. evaluate guess target = Inr vs \<and> length vs = length guess \<and>
    (\<forall>i. i < length guess \<longrightarrow>
       (vs ! i = Correct \<longleftrightarrow> normalizeWord guess ! i = normalizeWord target ! i) \<and>
       (vs ! i = Present \<longleftrightarrow>
          normalizeWord guess ! i \<noteq> normalizeWord target ! i \<and>
          0 < frequency (normalizeWord target) (normalizeWord guess ! i)
                - int (exact (normalizeWord guess) (normalizeWord target) (normalizeWord guess ! i))
                - int (creditedBefore (normalizeWord guess) vs i (normalizeWord guess ! i))) \<and>
       (vs ! i = Present \<longleftrightarrow>
          normalizeWord guess ! i \<noteq> normalizeWord target ! i \<and>
          earlier (normalizeWord guess) (normalizeWord target) i (normalizeWord guess ! i)
            < unmatched (normalizeWord guess) (normalizeWord target) (normalizeWord guess ! i)) \<and>
       (vs ! i = Absent \<longleftrightarrow> vs ! i \<noteq> Correct \<and> vs ! i \<noteq> Present))"
proof -
  let ?g = "normalizeWord guess" and ?t = "normalizeWord target"
  let ?vs = "map (\<lambda>i. if ?g ! i = ?t ! i then Correct
                   else if earlier ?g ?t i (?g ! i) < unmatched ?g ?t (?g ! i) then Present
                   else Absent) [0..<length ?g]"
  have len: "length ?g = length ?t" "length ?g = length guess"
    using assms by (simp_all add: normalizeWord_def)
  obtain marks pool where pp: "pass1 (zip ?g ?t) (frequency ?t) = (marks, pool)"
    by (cases "pass1 (zip ?g ?t) (frequency ?t)")
  have ev: "evaluate guess target = Inr ?vs"
    using assms evaluate_closed_form [OF len(1)]
    by (simp add: evaluate_def Let_def pp)
  have lv: "length ?vs = length ?g" by simp
  have c: "(?vs ! i = Correct) = (?g ! i = ?t ! i)" if "i < length ?g" for i
    using that by simp
  have p: "(?vs ! i = Present) =
      (?g ! i \<noteq> ?t ! i \<and> earlier ?g ?t i (?g ! i) < unmatched ?g ?t (?g ! i))"
    if "i < length ?g" for i
    using that by simp
  have cb: "creditedBefore ?g ?vs i (?g ! i) =
      min (earlier ?g ?t i (?g ! i)) (unmatched ?g ?t (?g ! i))" if "i < length ?g" for i
    using credited_min [OF len(1) lv p, of i "?g ! i"] that by simp
  have pool: "frequency ?t x - int (exact ?g ?t x) = int (unmatched ?g ?t x)" for x
    using pool_after_pass1 [OF len(1), of x] by (simp add: exact_def)
  have lit: "(?vs ! i = Present) =
      (?g ! i \<noteq> ?t ! i \<and>
       0 < frequency ?t (?g ! i) - int (exact ?g ?t (?g ! i))
             - int (creditedBefore ?g ?vs i (?g ! i)))"
    if "i < length ?g" for i
    unfolding p [OF that] pool cb [OF that] by auto
  have ab: "(?vs ! i = Absent) = (?vs ! i \<noteq> Correct \<and> ?vs ! i \<noteq> Present)" for i
    by (cases "?vs ! i") simp_all
  show ?thesis
  proof (intro exI conjI allI impI)
    show "evaluate guess target = Inr ?vs" by (rule ev)
    show "length ?vs = length guess" using len by simp
  next
    fix i assume "i < length guess"
    then have i: "i < length ?g" using len by simp
    show "(?vs ! i = Correct) = (?g ! i = ?t ! i)" by (rule c [OF i])
    show "(?vs ! i = Present) =
      (?g ! i \<noteq> ?t ! i \<and>
       0 < frequency ?t (?g ! i) - int (exact ?g ?t (?g ! i))
             - int (creditedBefore ?g ?vs i (?g ! i)))" by (rule lit [OF i])
    show "(?vs ! i = Present) =
      (?g ! i \<noteq> ?t ! i \<and> earlier ?g ?t i (?g ! i) < unmatched ?g ?t (?g ! i))"
      by (rule p [OF i])
    show "(?vs ! i = Absent) = (?vs ! i \<noteq> Correct \<and> ?vs ! i \<noteq> Present)" by (rule ab)
  qed
qed

theorem evaluate_two_pass_witness:
  "length ''eeexx'' = length ''SPEED'' \<and>
   evaluate ''eeexx'' ''SPEED'' = Inr [Present, Absent, Correct, Absent, Absent]"
proof -
  have h: "length ''eeexx'' = length ''SPEED''" by simp
  have g: "normalizeWord ''eeexx'' = ''EEEXX''" and t: "normalizeWord ''SPEED'' = ''SPEED''"
    by code_simp+
  from evaluate_two_pass [OF h, unfolded g t] obtain vs
    where ev: "evaluate ''eeexx'' ''SPEED'' = Inr vs"
      and len: "length vs = length ''eeexx''"
      and a: "\<forall>i. i < length ''eeexx'' \<longrightarrow>
       (vs ! i = Correct \<longleftrightarrow> ''EEEXX'' ! i = ''SPEED'' ! i) \<and>
       (vs ! i = Present \<longleftrightarrow>
          ''EEEXX'' ! i \<noteq> ''SPEED'' ! i \<and>
          0 < frequency ''SPEED'' (''EEEXX'' ! i)
                - int (exact ''EEEXX'' ''SPEED'' (''EEEXX'' ! i))
                - int (creditedBefore ''EEEXX'' vs i (''EEEXX'' ! i))) \<and>
       (vs ! i = Present \<longleftrightarrow>
          ''EEEXX'' ! i \<noteq> ''SPEED'' ! i \<and>
          earlier ''EEEXX'' ''SPEED'' i (''EEEXX'' ! i)
            < unmatched ''EEEXX'' ''SPEED'' (''EEEXX'' ! i)) \<and>
       (vs ! i = Absent \<longleftrightarrow> vs ! i \<noteq> Correct \<and> vs ! i \<noteq> Present)"
    by blast
  have c: "(vs ! i = Correct) = (''EEEXX'' ! i = ''SPEED'' ! i)" if "i < 5" for i
  proof -
    from that have "i < length ''eeexx''" by simp
    from a [rule_format, OF this] show ?thesis by blast
  qed
  have p: "(vs ! i = Present) =
          (''EEEXX'' ! i \<noteq> ''SPEED'' ! i \<and>
           earlier ''EEEXX'' ''SPEED'' i (''EEEXX'' ! i) < unmatched ''EEEXX'' ''SPEED'' (''EEEXX'' ! i))"
    if "i < 5" for i
  proof -
    from that have "i < length ''eeexx''" by simp
    from a [rule_format, OF this] show ?thesis by blast
  qed
  have v0: "vs ! 0 = Present" using p [of 0] by (simp add: earlier_def unmatched_def)
  have v1: "vs ! 1 = Absent" using p [of 1] c [of 1]
    by (cases "vs ! 1") (simp_all add: earlier_def unmatched_def)
  have v2: "vs ! 2 = Correct" using c [of 2] by simp
  have v3: "vs ! 3 = Absent" using p [of 3] c [of 3]
    by (cases "vs ! 3") (simp_all add: earlier_def unmatched_def)
  have v4: "vs ! 4 = Absent" using p [of 4] c [of 4]
    by (cases "vs ! 4") (simp_all add: earlier_def unmatched_def)
  have "vs = [vs ! 0, vs ! 1, vs ! 2, vs ! 3, vs ! 4]"
    using len by (auto simp: list_eq_iff_nth_eq less_Suc_eq numeral_eq_Suc nth_Cons')
  with v0 v1 v2 v3 v4 have "vs = [Present, Absent, Correct, Absent, Absent]" by simp
  with ev h show ?thesis by simp
qed

text \<open>The example of the specification: target SPEED, guess ERASE.\<close>

lemma evaluate_ERASE_SPEED:
  "evaluate ''ERASE'' ''SPEED'' = Inr [Present, Absent, Absent, Present, Present]"
  by code_simp

section \<open>The target stays concealed while the game is being played\<close>

lemma concealed_loadGameState:
  "replyConceals srv \<Longrightarrow> concealed s \<Longrightarrow> concealed (loadGameState srv ident s)"
  by (auto simp: concealed_def replyConceals_def loadGameState_def Let_def
      split: fetched.splits sum.splits)

lemma concealed_fetchStats: "concealed (fetchStats srv s) = concealed s"
  by (simp add: concealed_def fetchStats_def Let_def split: sum.splits)

lemma concealed_update [simp]:
  "concealed (s\<lparr>isLoading := a\<rparr>) = concealed s"
  "concealed (s\<lparr>error := b\<rparr>) = concealed s"
  "concealed (s\<lparr>calls := c\<rparr>) = concealed s"
  "concealed (s\<lparr>currentAttempt := d\<rparr>) = concealed s"
  by (simp_all add: concealed_def)

lemma concealed_submitGuess:
  "replyConceals srv \<Longrightarrow> concealed s \<Longrightarrow> concealed (submitGuess W srv word s)"
  by (simp add: submitGuess_def Let_def concealed_fetchStats concealed_loadGameState
      split: option.splits fetched.splits)

lemma concealed_handleKeyPress:
  "replyConceals srv \<Longrightarrow> concealed s \<Longrightarrow> concealed (handleKeyPress W srv key s)"
  by (simp add: handleKeyPress_def Let_def concealed_submitGuess)

lemma concealed_startNewGame: "concealed s \<Longrightarrow> concealed (startNewGame M W srv s)"
  by (simp add: startNewGame_def Let_def concealed_def split: fetched.splits)

lemma render_solution:
  "gameStatus s \<noteq> Lost \<Longrightarrow> render M W (s\<lparr>solution := x\<rparr>) = render M W s"
  by (cases "gameStatus s") (simp_all add: render_def)

lemma spec_submitGuess_word:
  assumes "spec_submitGuess sess guess = Inr (sess', res)"
  shows "r_status res = s_status sess'" "s_target sess' = s_target sess"
    "r_word res = (if r_status res = Playing then None else Some (s_target sess))"
  using assms
  by (auto simp: spec_submitGuess_def Let_def split: if_splits sum.splits)

text \<open>
  C5: what the server's \<open>submitGuess\<close> returns carries the target word exactly when the
  status it returns is no longer Playing, and so does the game-state view. A board that
  holds no solution while playing still holds none after loading such a view, after a
  guess submission, after any key press and after starting a new game; and nothing the
  board shows depends on the solution it holds unless the game is lost.
\<close>

theorem target_concealed_while_playing:
  "(spec_submitGuess sess guess = Inr (sess', res) \<longrightarrow>
      r_status res = s_status sess' \<and>
      r_word res = (if r_status res = Playing then None else Some (s_target sess))) \<and>
   v_word (currentView sess) =
      (if v_status (currentView sess) = Playing then None else Some (s_target sess)) \<and>
   (gameReply srv = Json (wireView (currentView sess)) \<longrightarrow> replyConceals srv) \<and>
   (replyConceals srv \<and> concealed s \<longrightarrow>
      concealed (loadGameState srv ident s) \<and> concealed (submitGuess W srv word s) \<and>
      concealed (handleKeyPress W srv key s) \<and> concealed (startNewGame M W srv s)) \<and>
   (gameStatus s \<noteq> Lost \<longrightarrow> render M W (s\<lparr>solution := x\<rparr>) = render M W s)"
proof -
  have a: "v_word (currentView sess) =
      (if v_status (currentView sess) = Playing then None else Some (s_target sess))"
    by (simp add: currentView_def)
  have b: "replyConceals srv" if "gameReply srv = Json (wireView (currentView sess))"
    using that by (simp add: replyConceals_def wireView_def currentView_def)
  from a b spec_submitGuess_word [of sess guess sess' res] concealed_loadGameState
    concealed_submitGuess concealed_handleKeyPress concealed_startNewGame render_solution
  show ?thesis by blast
qed

lemma evaluate_SLATE: "evaluate ''SLATE'' ''CRANE'' = Inr [Absent, Absent, Correct, Absent, Correct]"
  by code_simp

theorem target_concealed_while_playing_witness:
  "(\<exists>sess' res. spec_submitGuess (create 5 6 ''CRANE'') ''SLATE'' = Inr (sess', res) \<and>
      r_status res = Playing \<and> r_word res = None \<and>
      (\<exists>sess'' res'. spec_submitGuess sess' ''CRANE'' = Inr (sess'', res') \<and>
         r_status res' = Won \<and> r_word res' = Some ''CRANE'')) \<and>
   replyConceals playingServer \<and> concealed freshBoard \<and>
   concealed (submitGuess 5 playingServer ''SLATE'' freshBoard) \<and>
   render 6 5 (freshBoard\<lparr>solution := Some ''CRANE''\<rparr>) = render 6 5 freshBoard"
proof -
  obtain s1 r1 where h1: "spec_submitGuess (create 5 6 ''CRANE'') ''SLATE'' = Inr (s1, r1)"
    and p1: "r_status r1 = Playing" and t1: "s_target s1 = ''CRANE''"
    and st1: "s_status s1 = Playing" "s_wordLength s1 = 5" "s_maxAttempts s1 = 6"
      "length (s_attempts s1) = 1"
    by (simp add: spec_submitGuess_def create_def evaluate_SLATE Let_def)
  have ev: "evaluate ''CRANE'' ''CRANE'' = Inr [Correct, Correct, Correct, Correct, Correct]"
    by code_simp
  obtain s2 r2 where h2: "spec_submitGuess s1 ''CRANE'' = Inr (s2, r2)"
    and p2: "r_status r2 = Won"
    using st1 t1 by (simp add: spec_submitGuess_def ev Let_def)
  have c: "replyConceals playingServer" "concealed freshBoard"
    by (simp_all add: replyConceals_def playingServer_def playingView_def concealed_def
        freshBoard_def)
  have l: "gameStatus freshBoard \<noteq> Lost" by (simp add: freshBoard_def)
  note a = target_concealed_while_playing [where sess = "create 5 6 ''CRANE''"
      and guess = "''SLATE''" and sess' = s1 and res = r1 and srv = playingServer
      and s = freshBoard and ident = "''g1''" and W = 5 and word = "''SLATE''"
      and key = "''a''" and M = 6 and x = "Some ''CRANE''"]
  note b = target_concealed_while_playing [where sess = s1
      and guess = "''CRANE''" and sess' = s2 and res = r2 and srv = playingServer
      and s = freshBoard and ident = "''g1''" and W = 5 and word = "''SLATE''"
      and key = "''a''" and M = 6 and x = "Some ''CRANE''"]
  from a h1 p1 have w1: "r_word r1 = None" by simp
  from b h2 p2 t1 have w2: "r_word r2 = Some ''CRANE''" by simp
  from a c have f: "concealed (submitGuess 5 playingServer ''SLATE'' freshBoard)" by blast
  from a l have r: "render 6 5 (freshBoard\<lparr>solution := Some ''CRANE''\<rparr>) = render 6 5 freshBoard"
    by blast
  from h1 p1 w1 h2 p2 w2 c f r show ?thesis by blast
qed

section \<open>The win percentage\<close>

lemma expo_bounds:
  assumes "0 < x"
  shows "2 powi (expo x) \<le> x" and "x < 2 powi (expo x + 1)"
proof -
  obtain a b where q: "quotient_of x = (a, b)" by (cases "quotient_of x")
  then have b: "0 < b" by (rule quotient_of_denom_pos)
  from q have x: "x = of_int a / of_int b" by (rule quotient_of_div)
  with assms b have a: "0 < a" by (simp add: zero_less_divide_iff)
  let ?la = "bitlen a" and ?lb = "bitlen b"
  from bitlen_bounds [OF a] have a1: "(2::int) ^ nat (?la - 1) \<le> a" and a2: "a < 2 ^ nat ?la" by simp_all
  from bitlen_bounds [OF b] have b1: "(2::int) ^ nat (?lb - 1) \<le> b" and b2: "b < 2 ^ nat ?lb" by simp_all
  from a have la: "1 \<le> ?la" by (auto simp: bitlen_alt_def)
  from b have lb: "1 \<le> ?lb" by (auto simp: bitlen_alt_def)
  have ra1: "(2::rat) powi (?la - 1) \<le> of_int a"
    using a1 la by (simp add: power_int_def)
  have ra2: "of_int a < (2::rat) powi ?la"
    using a2 la by (simp add: power_int_def)
  have rb1: "(2::rat) powi (?lb - 1) \<le> of_int b"
    using b1 lb by (simp add: power_int_def)
  have rb2: "of_int b < (2::rat) powi ?lb"
    using b2 lb by (simp add: power_int_def)
  have pos: "0 < (2::rat) powi k" for k by simp
  have low: "(2::rat) powi (?la - ?lb - 1) \<le> x"
  proof -
    have "(2::rat) powi (?la - ?lb - 1) = 2 powi (?la - 1) / 2 powi ?lb"
      by (simp add: power_int_diff)
    also have "\<dots> \<le> of_int a / 2 powi ?lb"
      using ra1 pos by (simp add: divide_right_mono)
    also have "\<dots> \<le> of_int a / of_int b"
      using rb2 a b by (simp add: frac_le)
    finally show ?thesis by (simp add: x)
  qed
  have high: "x < (2::rat) powi (?la - ?lb + 1)"
  proof -
    have "x = of_int a / of_int b" by (rule x)
    also have "\<dots> < 2 powi ?la / of_int b"
      using ra2 b by (simp add: divide_strict_right_mono)
    also have "\<dots> \<le> 2 powi ?la / 2 powi (?lb - 1)"
      using rb1 pos [of "?lb - 1"] pos [of ?la] b by (intro divide_left_mono) simp_all
    also have "\<dots> = 2 powi (?la - ?lb + 1)"
      by (simp add: power_int_diff [symmetric] algebra_simps)
    finally show ?thesis .
  qed
  show "2 powi (expo x) \<le> x"
    using low by (simp add: expo_def q Let_def)
  show "x < 2 powi (expo x + 1)"
    using high by (auto simp: expo_def q Let_def not_le)
qed

lemma roundEven_error: "\<bar>of_int (roundEven y) - y\<bar> \<le> 1 / 2"
proof -
  have "of_int \<lfloor>y\<rfloor> \<le> y" "y < of_int \<lfloor>y\<rfloor> + 1" by linarith+
  then show ?thesis by (auto simp: roundEven_def Let_def)
qed

lemma roundEven_nonneg: "0 \<le> y \<Longrightarrow> 0 \<le> roundEven y"
  by (auto simp: roundEven_def Let_def)

lemma scaled_abs:
  fixes n q x :: rat
  assumes "0 < q"
  shows "\<bar>n * q - x\<bar> = \<bar>n - x / q\<bar> * q"
proof -
  have "n * q - x = (n - x / q) * q" using assms by (simp add: field_simps)
  then show ?thesis using assms by (simp add: abs_mult)
qed

lemma two_steps:
  fixes a y r :: rat
  shows "\<bar>a - 100 * r\<bar> \<le> \<bar>a - y * 100\<bar> + 100 * \<bar>y - r\<bar>"
  by (simp add: abs_if split: if_splits)

lemma toDouble_error:
  assumes "0 \<le> x"
  shows "\<bar>toDouble x - x\<bar> \<le> x * ulp53" and "0 \<le> toDouble x"
proof -
  show "\<bar>toDouble x - x\<bar> \<le> x * ulp53"
  proof (cases "x = 0")
    case True
    then show ?thesis by (simp add: toDouble_def)
  next
    case False
    with assms have x: "0 < x" by simp
    let ?e = "expo x"
    let ?q = "(2::rat) powi (?e - 52)"
    have q: "0 < ?q" by simp
    have td: "toDouble x = of_int (roundEven (x / ?q)) * ?q"
      using x by (simp add: toDouble_def Let_def)
    have "\<bar>toDouble x - x\<bar> = \<bar>of_int (roundEven (x / ?q)) - x / ?q\<bar> * ?q"
      unfolding td by (rule scaled_abs [OF q])
    also have "\<dots> \<le> (1 / 2) * ?q"
      using roundEven_error [of "x / ?q"] q by (intro mult_right_mono) simp_all
    also have "\<dots> = 2 powi ?e * ulp53"
      by (simp add: power_int_diff ulp53_def)
    also have "\<dots> \<le> x * ulp53"
      using expo_bounds(1) [OF x] by (intro mult_right_mono) (simp_all add: ulp53_def)
    finally show ?thesis .
  qed
  show "0 \<le> toDouble x"
    using assms roundEven_nonneg [of "x / 2 powi (expo \<bar>x\<bar> - 52)"]
    by (simp add: toDouble_def Let_def)
qed

lemma product_close:
  assumes "0 \<le> w" "w \<le> p" "0 < p"
  shows "\<bar>jsTimes (jsDivide (of_int w) (of_int p)) 100 - 100 * of_int w / of_int p\<bar>
           \<le> 100 * ulp53 * (2 + ulp53)"
    and "0 \<le> jsTimes (jsDivide (of_int w) (of_int p)) 100"
proof -
  let ?r = "(of_int w / of_int p :: rat)"
  let ?y1 = "toDouble ?r"
  let ?y2 = "toDouble (?y1 * 100)"
  have r0: "0 \<le> ?r" and r1: "?r \<le> 1" using assms by simp_all
  have u0: "0 \<le> ulp53" by (simp add: ulp53_def)
  note e1 = toDouble_error [OF r0]
  have y1: "\<bar>?y1 - ?r\<bar> \<le> ulp53"
  proof -
    have "?r * ulp53 \<le> 1 * ulp53" using r1 u0 by (intro mult_right_mono)
    with e1(1) show ?thesis by simp
  qed
  then have y1u: "?y1 \<le> 1 + ulp53" using r1 by (simp add: abs_if split: if_splits)
  have p0: "0 \<le> ?y1 * 100" using e1(2) by simp
  note e2 = toDouble_error [OF p0]
  have "?y1 * 100 * ulp53 \<le> (1 + ulp53) * 100 * ulp53"
    using y1u u0 by (intro mult_right_mono) simp_all
  with e2(1) have y2: "\<bar>?y2 - ?y1 * 100\<bar> \<le> (1 + ulp53) * 100 * ulp53" by (rule order_trans)
  have "\<bar>?y2 - 100 * ?r\<bar> \<le> \<bar>?y2 - ?y1 * 100\<bar> + 100 * \<bar>?y1 - ?r\<bar>" by (rule two_steps)
  also have "\<dots> \<le> (1 + ulp53) * 100 * ulp53 + 100 * ulp53"
    using y1 y2 by (intro add_mono mult_left_mono) simp_all
  also have "\<dots> = 100 * ulp53 * (2 + ulp53)" by (simp add: algebra_simps)
  finally show "\<bar>jsTimes (jsDivide (of_int w) (of_int p)) 100 - 100 * of_int w / of_int p\<bar>
           \<le> 100 * ulp53 * (2 + ulp53)"
    by (simp add: jsTimes_def jsDivide_def)
  show "0 \<le> jsTimes (jsDivide (of_int w) (of_int p)) 100"
    using e2(2) by (simp add: jsTimes_def jsDivide_def)
qed

lemma margin:
  assumes "0 < p" "p < 2 ^ 44"
  shows "100 * ulp53 * (2 + ulp53) < 1 / (2 * of_int p)"
proof -
  have "of_int p \<le> (2 ^ 44 :: rat)" using assms(2)
    by (metis less_imp_le of_int_le_iff of_int_numeral of_int_power)
  moreover have "0 < (of_int p :: rat)" using assms(1) by simp
  ultimately have "2 * of_int p * (100 * ulp53 * (2 + ulp53)) \<le> 2 * 2 ^ 44 * (100 * ulp53 * (2 + ulp53))"
    by (intro mult_right_mono mult_left_mono) (simp_all add: ulp53_def)
  also have "\<dots> < (1::rat)" by (simp add: ulp53_def)
  finally have "2 * of_int p * (100 * ulp53 * (2 + ulp53)) < (1::rat)" .
  with \<open>0 < (of_int p :: rat)\<close> show ?thesis by (simp add: field_simps)
qed

lemma floor_close:
  fixes y :: rat and k p :: int
  assumes p: "0 < p" and c: "\<bar>y + 1 / 2 - of_int k / of_int (2 * p)\<bar> < 1 / (2 * of_int p)"
  shows "k div (2 * p) - 1 \<le> \<lfloor>y + 1 / 2\<rfloor>" and "\<lfloor>y + 1 / 2\<rfloor> \<le> k div (2 * p)"
    and "k mod (2 * p) \<noteq> 0 \<Longrightarrow> \<lfloor>y + 1 / 2\<rfloor> = k div (2 * p)"
proof -
  let ?n = "k div (2 * p)" and ?m = "k mod (2 * p)"
  let ?d = "2 * of_int p :: rat"
  have d: "0 < ?d" using p by simp
  have m: "0 \<le> ?m" "?m < 2 * p" using p by simp_all
  have k: "k = 2 * p * ?n + ?m" by simp
  have "(of_int k :: rat) = ?d * of_int ?n + of_int ?m"
    by (subst k) (simp only: of_int_add of_int_mult of_int_numeral)
  then have q: "of_int k / of_int (2 * p) = of_int ?n + of_int ?m / ?d"
    using d by (simp add: field_simps)
  from c have lo: "of_int ?n + of_int ?m / ?d - 1 / ?d < y + 1 / 2"
    and hi: "y + 1 / 2 < of_int ?n + of_int ?m / ?d + 1 / ?d"
    unfolding q by (simp_all add: abs_if split: if_splits)
  have m1: "(of_int ?m + 1) / ?d \<le> 1"
  proof -
    from m(2) have "?m + 1 \<le> 2 * p" by simp
    then have "(of_int (?m + 1) :: rat) \<le> of_int (2 * p)" by (simp only: of_int_le_iff)
    then show ?thesis using d by simp
  qed
  have m0: "0 \<le> of_int ?m / ?d" using m(1) d by simp
  have d1: "1 / ?d \<le> 1"
  proof -
    from p have "1 \<le> 2 * p" by simp
    then have "(of_int 1 :: rat) \<le> of_int (2 * p)" by (simp only: of_int_le_iff)
    then show ?thesis using d by simp
  qed
  have "y + 1 / 2 < of_int ?n + 1"
  proof -
    have "of_int ?m / ?d + 1 / ?d = (of_int ?m + 1) / ?d" by (simp add: add_divide_distrib)
    with hi m1 show ?thesis by linarith
  qed
  then have "y + 1 / 2 < of_int (?n + 1)" by simp
  then have "\<lfloor>y + 1 / 2\<rfloor> < ?n + 1" by (simp only: floor_less_iff)
  then show up: "\<lfloor>y + 1 / 2\<rfloor> \<le> ?n" by simp
  have "of_int ?n - 1 < y + 1 / 2" using lo m0 d1 by linarith
  then have "of_int (?n - 1) \<le> y + 1 / 2" by simp
  then show "?n - 1 \<le> \<lfloor>y + 1 / 2\<rfloor>" by (simp only: le_floor_iff)
  show "\<lfloor>y + 1 / 2\<rfloor> = ?n" if "?m \<noteq> 0"
  proof -
    from that m(1) have "1 \<le> ?m" by simp
    then have "(of_int 1 :: rat) \<le> of_int ?m" by (simp only: of_int_le_iff)
    then have "1 / ?d \<le> of_int ?m / ?d" using d by (simp add: divide_right_mono)
    with lo have "of_int ?n \<le> y + 1 / 2" by linarith
    then have "?n \<le> \<lfloor>y + 1 / 2\<rfloor>" by (simp only: le_floor_iff)
    with up show ?thesis by simp
  qed
qed

lemma percentOf_bounds:
  assumes "0 \<le> w" "w \<le> p" "0 < p" "p < 2 ^ 44"
  shows "0 \<le> percentOf w p" "percentOf w p \<le> 100" "percentExact w p - 1 \<le> percentOf w p" "percentOf w p \<le> percentExact w p"
    and "(200 * w + p) mod (2 * p) \<noteq> 0 \<Longrightarrow> percentOf w p = percentExact w p"
proof -
  let ?y = "jsTimes (jsDivide (of_int w) (of_int p)) 100"
  let ?k = "200 * w + p"
  have pp: "0 < (of_int p :: rat)" using assms(3) by simp
  have e: "(100 * of_int w / of_int p :: rat) + 1 / 2 = of_int ?k / of_int (2 * p)"
    using pp by (simp add: field_simps)
  have pe: "percentExact w p = ?k div (2 * p)"
    unfolding percentExact_def e by (rule floor_divide_of_int_eq)
  have pc: "percentOf w p = \<lfloor>?y + 1 / 2\<rfloor>" using assms(3) by (simp add: percentOf_def mathRound_def)
  note cl = product_close [OF assms(1,2,3)]
  have "\<bar>?y + 1 / 2 - of_int ?k / of_int (2 * p)\<bar> = \<bar>?y - 100 * of_int w / of_int p\<bar>"
    unfolding e [symmetric] by simp
  also have "\<dots> < 1 / (2 * of_int p)"
    using cl(1) margin [OF assms(3,4)] by (rule le_less_trans)
  finally have c: "\<bar>?y + 1 / 2 - of_int ?k / of_int (2 * p)\<bar> < 1 / (2 * of_int p)" .
  note f = floor_close [OF assms(3) c]
  show "percentExact w p - 1 \<le> percentOf w p" unfolding pe pc by (rule f(1))
  show le: "percentOf w p \<le> percentExact w p" unfolding pe pc by (rule f(2))
  show "percentOf w p = percentExact w p" if "(200 * w + p) mod (2 * p) \<noteq> 0"
    unfolding pe pc using that by (rule f(3))
  have "(0::rat) \<le> ?y + 1 / 2" using cl(2) by simp
  then have "0 \<le> \<lfloor>?y + 1 / 2\<rfloor>" by (simp only: zero_le_floor)
  then show "0 \<le> percentOf w p" by (simp add: pc)
  have "?k \<le> 201 * p" using assms(2) by simp
  then have "?k div (2 * p) \<le> (201 * p) div (2 * p)" by (rule zdiv_mono1) (use assms(3) in simp)
  also have "(201 * p) div (2 * p) = 100"
  proof -
    have "201 * p = 100 * (2 * p) + p" by simp
    then have "(201 * p) div (2 * p) = 100 + p div (2 * p)"
      using assms(3) by (metis add.commute div_mult_self1 less_irrefl mult_eq_0_iff zero_neq_numeral)
    with assms(3) show ?thesis by simp
  qed
  finally have "percentExact w p \<le> 100" by (simp add: pe)
  with le show "percentOf w p \<le> 100" by simp
qed

text \<open>
  C10 (as stated, refuted): with 23 games won out of 40 the board shows 57, while
  \<open>round(100 * 23 / 40) = round(57.5) = 58\<close>: the quotient \<open>23 / 40\<close> is rounded to a
  double just below 0.575, and its product with 100 to a double just below 57.5.
\<close>

theorem win_percentage_not_exact:
  "0 < played stats23of40 \<and> winPercentage stats23of40 = 57 \<and>
   exactPercentage stats23of40 = 58"
  by (simp add: stats23of40_def winPercentage_def exactPercentage_def) code_simp

text \<open>
  C10 (amended): the win percentage is computed totally. It is 0 whenever \<open>played\<close> is
  not greater than 0, so nothing is divided by zero. For counts with
  \<open>0 \<le> won \<le> played < 2 ^ 44\<close> and \<open>played > 0\<close> it is \<open>Math.round\<close> of the
  double-precision product \<open>(won / played) * 100\<close>: an integer from 0 to 100 that is
  \<open>round(100 * won / played)\<close> or one less, and is \<open>round(100 * won / played)\<close>
  whenever \<open>100 * won / played\<close> does not lie exactly halfway between two integers.
\<close>

theorem win_percentage_total:
  "(\<not> 0 < played st \<longrightarrow> winPercentage st = 0) \<and>
   (0 \<le> won st \<and> won st \<le> played st \<and> 0 < played st \<and> played st < 2 ^ 44 \<longrightarrow>
      0 \<le> winPercentage st \<and> winPercentage st \<le> 100 \<and>
      exactPercentage st - 1 \<le> winPercentage st \<and> winPercentage st \<le> exactPercentage st \<and>
      ((200 * won st + played st) mod (2 * played st) \<noteq> 0 \<longrightarrow>
         winPercentage st = exactPercentage st))"
  using percentOf_bounds [of "won st" "played st"]
  by (simp add: winPercentage_def exactPercentage_def percentOf_def)

theorem win_percentage_total_witness:
  "winPercentage zeroStats = 0 \<and>
   winPercentage stats1of3 = exactPercentage stats1of3 \<and> exactPercentage stats1of3 = 33"
proof -
  have z: "\<not> 0 < played zeroStats" by (simp add: zeroStats_def)
  have h: "0 \<le> won stats1of3 \<and> won stats1of3 \<le> played stats1of3 \<and>
      0 < played stats1of3 \<and> played stats1of3 < 2 ^ 44"
    "(200 * won stats1of3 + played stats1of3) mod (2 * played stats1of3) \<noteq> 0"
    by (simp_all add: stats1of3_def)
  have e: "exactPercentage stats1of3 = 33"
    by (simp add: stats1of3_def exactPercentage_def) code_simp
  from win_percentage_total [of zeroStats] z have a: "winPercentage zeroStats = 0" by blast
  from win_percentage_total [of stats1of3] h
  have b: "winPercentage stats1of3 = exactPercentage stats1of3" by blast
  from a b e show ?thesis by simp
qed

end
